theory Spec2Isabelle
  imports Main "HOL-Library.Finite_Map" "HOL-Library.Sublist"
begin

section \<open>Strings\<close>

text \<open>
  A Go \<open>string\<close> is a sequence of bytes; so is a HOL \<open>string\<close> (\<open>char\<close> is a byte), and
  \<open>len(s)\<close> is \<open>length s\<close>.  The functions of this section are the ones the program takes from
  Go's \<open>strings\<close>, \<open>strconv\<close> and \<open>unicode/utf8\<close> packages, written out on bytes.
\<close>

fun HasPrefix :: "string \<Rightarrow> string \<Rightarrow> bool" where
  "HasPrefix s [] = True"
| "HasPrefix [] (p # ps) = False"
| "HasPrefix (c # cs) (p # ps) = (c = p \<and> HasPrefix cs ps)"

fun Contains :: "string \<Rightarrow> string \<Rightarrow> bool" where
  "Contains [] sub = (sub = [])"
| "Contains (c # cs) sub = (HasPrefix (c # cs) sub \<or> Contains cs sub)"

text \<open>
  \<open>strings.Replace(s, old, new, n)\<close> is called with \<open>n = 1\<close> (\<open>ReplaceFirst\<close>) and with
  \<open>n = -1\<close> (\<open>ReplaceEvery\<close>: every non-overlapping occurrence, left to right).  At every call
  site \<open>old\<close> is a non-empty string; for an empty \<open>old\<close> the two functions below return \<open>s\<close>,
  which is not what Go does and is never used.
\<close>

fun ReplaceFirst :: "string \<Rightarrow> string \<Rightarrow> string \<Rightarrow> string" where
  "ReplaceFirst [] old new = []"
| "ReplaceFirst (c # cs) old new =
     (if old \<noteq> [] \<and> HasPrefix (c # cs) old then new @ drop (length old) (c # cs)
      else c # ReplaceFirst cs old new)"

function ReplaceEvery :: "string \<Rightarrow> string \<Rightarrow> string \<Rightarrow> string" where
  "ReplaceEvery [] old new = []"
| "ReplaceEvery (c # cs) old new =
     (if old \<noteq> [] \<and> HasPrefix (c # cs) old
      then new @ ReplaceEvery (drop (length old) (c # cs)) old new
      else c # ReplaceEvery cs old new)"
  by pat_completeness auto
termination
  by (relation "measure (\<lambda>(s, old, new). length s)") (auto simp: neq_Nil_conv)

text \<open>
  \<open>strings.TrimSpace\<close> removes the leading and the trailing white space, as
  \<open>unicode.IsSpace\<close> defines it: the six ASCII characters and the runes U+0085, U+00A0, U+1680,
  U+2000 to U+200A, U+2028, U+2029, U+202F, U+205F and U+3000.  \<open>spaceRunes\<close> lists their UTF-8
  encodings.  A string starts (ends) with a white-space rune exactly when one of these
  encodings is a prefix (suffix) of it: a malformed sequence decodes to U+FFFD, of width one,
  which is no white space.
\<close>

definition spaceRunes :: "string list" where
  "spaceRunes =
     [[CHR 0x09], [CHR 0x0A], [CHR 0x0B], [CHR 0x0C], [CHR 0x0D], [CHR 0x20],
      [CHR 0xC2, CHR 0x85], [CHR 0xC2, CHR 0xA0], [CHR 0xE1, CHR 0x9A, CHR 0x80],
      [CHR 0xE2, CHR 0x80, CHR 0x80], [CHR 0xE2, CHR 0x80, CHR 0x81],
      [CHR 0xE2, CHR 0x80, CHR 0x82], [CHR 0xE2, CHR 0x80, CHR 0x83],
      [CHR 0xE2, CHR 0x80, CHR 0x84], [CHR 0xE2, CHR 0x80, CHR 0x85],
      [CHR 0xE2, CHR 0x80, CHR 0x86], [CHR 0xE2, CHR 0x80, CHR 0x87],
      [CHR 0xE2, CHR 0x80, CHR 0x88], [CHR 0xE2, CHR 0x80, CHR 0x89],
      [CHR 0xE2, CHR 0x80, CHR 0x8A], [CHR 0xE2, CHR 0x80, CHR 0xA8],
      [CHR 0xE2, CHR 0x80, CHR 0xA9], [CHR 0xE2, CHR 0x80, CHR 0xAF],
      [CHR 0xE2, CHR 0x81, CHR 0x9F], [CHR 0xE3, CHR 0x80, CHR 0x80]]"

definition spaceWidth :: "string list \<Rightarrow> string \<Rightarrow> nat" where
  \<comment> \<open>the width in bytes of the rune of \<open>rs\<close> at the head of \<open>s\<close>, 0 when there is none\<close>
  "spaceWidth rs s = (case find (HasPrefix s) rs of None \<Rightarrow> 0 | Some r \<Rightarrow> length r)"

function trimRunes :: "string list \<Rightarrow> string \<Rightarrow> string" where
  "trimRunes rs s =
     (if spaceWidth rs s = 0 then s else trimRunes rs (drop (spaceWidth rs s) s))"
  by pat_completeness auto
termination
proof (relation "measure (\<lambda>(rs, s). length s)")
  fix rs :: "string list" and s :: string
  assume w: "spaceWidth rs s \<noteq> 0"
  have "s \<noteq> []"
  proof
    assume "s = []"
    have "find (HasPrefix []) rs = None \<or> find (HasPrefix []) rs = Some []"
      by (induction rs) (auto elim: HasPrefix.elims)
    with w \<open>s = []\<close> show False by (auto simp: spaceWidth_def)
  qed
  with w show "((rs, drop (spaceWidth rs s) s), (rs, s)) \<in> measure (\<lambda>(rs, s). length s)"
    by simp
qed simp

declare trimRunes.simps [simp del]

definition TrimSpace :: "string \<Rightarrow> string" where
  "TrimSpace s = rev (trimRunes (map rev spaceRunes) (rev (trimRunes spaceRunes s)))"

text \<open>
  \<open>strconv.Atoi\<close> accepts an optional sign followed by at least one decimal digit, and fails
  with a range error outside the 64-bit \<open>int\<close>; \<open>isNumeric\<close> is true when it does not fail.
\<close>

definition isDigit :: "char \<Rightarrow> bool" where
  "isDigit c = (48 \<le> (of_char c :: nat) \<and> (of_char c :: nat) \<le> 57)"

definition digitVal :: "char \<Rightarrow> int" where
  "digitVal c = int (of_char c) - 48"

definition digitChar :: "int \<Rightarrow> char" where
  "digitChar n = char_of (48 + nat n)"

definition decimal :: "string \<Rightarrow> int" where
  "decimal ds = foldl (\<lambda>n c. n * 10 + digitVal c) 0 ds"

definition Atoi :: "string \<Rightarrow> int option" where
  "Atoi s =
     (let neg = (s \<noteq> [] \<and> hd s = CHR ''-'');
          ds = (if s \<noteq> [] \<and> (hd s = CHR ''-'' \<or> hd s = CHR ''+'') then tl s else s);
          n = (if neg then - decimal ds else decimal ds)
      in if ds = [] \<or> \<not> list_all isDigit ds then None
         else if n < - (2 ^ 63) \<or> 2 ^ 63 - 1 < n then None
         else Some n)"

definition isNumeric :: "string \<Rightarrow> bool" where
  "isNumeric s = (Atoi s \<noteq> None)"


section \<open>Timestamps\<close>

text \<open>
  \<open>time.Parse("2006-01-02 15:04:05", v)\<close>, as the \<open>time\<close> package of Go 1.20 parses this
  layout: a year of four digits, a month and a day of two digits, a run of spaces (the layout's
  space skips every leading space of the value, and fails on any other character), an hour of
  one or two digits, a minute and a second of two digits, and then, though the layout has
  none, an optional fractional second: a period or comma followed by digits.  Nothing may
  follow.  The month is 1 to 12, the hour below 24, minute and second below 60, and the day
  exists in that month of that year.  The fraction plays no part in what follows and is not
  kept.
\<close>

record civil =
  year :: int
  month :: int
  day :: int
  hour :: int
  minute :: int
  second :: int

definition getnum :: "string \<Rightarrow> bool \<Rightarrow> (int \<times> string) option" where
  "getnum s fixed =
     (case s of
        [] \<Rightarrow> None
      | a # r \<Rightarrow>
          if \<not> isDigit a then None
          else (case r of
                  [] \<Rightarrow> if fixed then None else Some (digitVal a, r)
                | b # r' \<Rightarrow>
                    if \<not> isDigit b then (if fixed then None else Some (digitVal a, r))
                    else Some (digitVal a * 10 + digitVal b, r')))"

definition skipChar :: "char \<Rightarrow> string \<Rightarrow> string option" where
  "skipChar c s = (case s of [] \<Rightarrow> None | a # r \<Rightarrow> if a = c then Some r else None)"

definition skipSpace :: "string \<Rightarrow> string option" where
  \<comment> \<open>\<open>skip(value, " ")\<close>: an error on a first character that is no space, else \<open>cutspace\<close>\<close>
  "skipSpace s =
     (if s \<noteq> [] \<and> hd s \<noteq> CHR '' '' then None
      else Some (dropWhile (\<lambda>c. c = CHR '' '') s))"

definition getyear :: "string \<Rightarrow> (int \<times> string) option" where
  "getyear s =
     (if length s < 4 \<or> \<not> list_all isDigit (take 4 s) then None
      else Some (decimal (take 4 s), drop 4 s))"

definition skipFraction :: "string \<Rightarrow> string" where
  "skipFraction s =
     (case s of
        a # b # r \<Rightarrow>
          if (a = CHR ''.'' \<or> a = CHR '','') \<and> isDigit b then dropWhile isDigit r else s
      | _ \<Rightarrow> s)"

definition isLeap :: "int \<Rightarrow> bool" where
  "isLeap y = (y mod 4 = 0 \<and> (y mod 100 \<noteq> 0 \<or> y mod 400 = 0))"

definition daysIn :: "int \<Rightarrow> int \<Rightarrow> int" where
  "daysIn m y =
     (if m = 2 then (if isLeap y then 29 else 28)
      else if m = 4 \<or> m = 6 \<or> m = 9 \<or> m = 11 then 30 else 31)"

definition parseTime :: "string \<Rightarrow> civil option" where
  "parseTime v =
     Option.bind (getyear v) (\<lambda>(y, v).
     Option.bind (skipChar CHR ''-'' v) (\<lambda>v.
     Option.bind (getnum v True) (\<lambda>(mo, v).
     if mo \<le> 0 \<or> 12 < mo then None else
     Option.bind (skipChar CHR ''-'' v) (\<lambda>v.
     Option.bind (getnum v True) (\<lambda>(d, v).
     Option.bind (skipSpace v) (\<lambda>v.
     Option.bind (getnum v False) (\<lambda>(h, v).
     if 24 \<le> h then None else
     Option.bind (skipChar CHR '':'' v) (\<lambda>v.
     Option.bind (getnum v True) (\<lambda>(mi, v).
     if 60 \<le> mi then None else
     Option.bind (skipChar CHR '':'' v) (\<lambda>v.
     Option.bind (getnum v True) (\<lambda>(s, v).
     if 60 \<le> s then None
     else if skipFraction v \<noteq> [] then None
     else if d < 1 \<or> daysIn mo y < d then None
     else Some \<lparr>year = y, month = mo, day = d, hour = h, minute = mi, second = s\<rparr>
     )))))))))))"

text \<open>\<open>t.Add(-9 * time.Hour)\<close> on the calendar: nine hours back, into the day before when needed.\<close>

definition dayBefore :: "civil \<Rightarrow> civil" where
  "dayBefore t =
     (if 1 < day t then t\<lparr>day := day t - 1\<rparr>
      else if 1 < month t then t\<lparr>month := month t - 1, day := daysIn (month t - 1) (year t)\<rparr>
      else t\<lparr>year := year t - 1, month := 12, day := 31\<rparr>)"

definition minus9h :: "civil \<Rightarrow> civil" where
  "minus9h t =
     (if 9 \<le> hour t then t\<lparr>hour := hour t - 9\<rparr> else (dayBefore t)\<lparr>hour := hour t + 15\<rparr>)"

text \<open>\<open>t.Format("2006-01-02 15:04:05")\<close>: zero-padded fields, a sign before a negative year.\<close>

definition pad2 :: "int \<Rightarrow> string" where
  "pad2 n = [digitChar (n div 10 mod 10), digitChar (n mod 10)]"

definition pad4 :: "int \<Rightarrow> string" where
  "pad4 n = (if n < 0 then CHR ''-'' # pad2 (- n div 100) @ pad2 (- n mod 100)
             else pad2 (n div 100) @ pad2 (n mod 100))"

definition formatTime :: "civil \<Rightarrow> string" where
  "formatTime t =
     pad4 (year t) @ ''-'' @ pad2 (month t) @ ''-'' @ pad2 (day t) @ '' '' @
     pad2 (hour t) @ '':'' @ pad2 (minute t) @ '':'' @ pad2 (second t)"

definition jstToUtc :: "string \<Rightarrow> string" where
  \<comment> \<open>what the rewriter does to one bound of a BETWEEN clause\<close>
  "jstToUtc d =
     (if \<not> Contains d ''+'' \<and> \<not> Contains d ''Z''
      then (case parseTime d of Some t \<Rightarrow> formatTime (minus9h t) | None \<Rightarrow> d)
      else d)"


section \<open>The query rewriter\<close>

text \<open>
  The two regular expressions of \<open>preprocessSqlQuery\<close>,
  \<^verbatim>\<open>BETWEEN\s+'([^']+)'\s+AND\s+'([^']+)'\<close> and the same after \<^verbatim>\<open>time_dt\s+\<close>, have at most
  one match at a given position: every \<^verbatim>\<open>\s+\<close> is followed by a character that is no white
  space and every \<^verbatim>\<open>[^']+\<close> by a quote, so both runs are maximal.  \<open>simpleRegexAt s\<close> and
  \<open>betweenRegexAt s\<close> return the two groups of the match at the head of \<open>s\<close> and the text
  after it.  In Go's \<open>regexp\<close>, \<^verbatim>\<open>\s\<close> is tab, line feed, form feed, carriage return and space,
  and \<^verbatim>\<open>[^']\<close> is any character but the quote.
\<close>

definition reSpace :: "char \<Rightarrow> bool" where
  "reSpace c = (c = CHR 0x09 \<or> c = CHR 0x0A \<or> c = CHR 0x0C \<or> c = CHR 0x0D \<or> c = CHR 0x20)"

fun lit :: "string \<Rightarrow> string \<Rightarrow> string option" where
  "lit [] s = Some s"
| "lit (p # ps) [] = None"
| "lit (p # ps) (c # cs) = (if c = p then lit ps cs else None)"

definition spaces1 :: "string \<Rightarrow> string option" where
  "spaces1 s =
     (case s of [] \<Rightarrow> None | c # cs \<Rightarrow> if reSpace c then Some (dropWhile reSpace cs) else None)"

definition quoted :: "string \<Rightarrow> (string \<times> string) option" where
  "quoted s =
     (case s of
        [] \<Rightarrow> None
      | c # cs \<Rightarrow>
          if c \<noteq> CHR 0x27 then None
          else (let d = takeWhile (\<lambda>x. x \<noteq> CHR 0x27) cs;
                    r = dropWhile (\<lambda>x. x \<noteq> CHR 0x27) cs
                in if d = [] \<or> r = [] then None else Some (d, tl r)))"

definition simpleRegexAt :: "string \<Rightarrow> (string \<times> string \<times> string) option" where
  "simpleRegexAt s =
     Option.bind (lit ''BETWEEN'' s) (\<lambda>s.
     Option.bind (spaces1 s) (\<lambda>s.
     Option.bind (quoted s) (\<lambda>(date1, s).
     Option.bind (spaces1 s) (\<lambda>s.
     Option.bind (lit ''AND'' s) (\<lambda>s.
     Option.bind (spaces1 s) (\<lambda>s.
     Option.bind (quoted s) (\<lambda>(date2, s). Some (date1, date2, s))))))))"

definition betweenRegexAt :: "string \<Rightarrow> (string \<times> string \<times> string) option" where
  "betweenRegexAt s =
     Option.bind (lit ''time_dt'' s) (\<lambda>s. Option.bind (spaces1 s) simpleRegexAt)"

lemma lit_length: "lit p s = Some r \<Longrightarrow> length r \<le> length s"
  by (induction p s rule: lit.induct) (auto split: if_splits intro: le_SucI)

lemma spaces1_length: "spaces1 s = Some r \<Longrightarrow> length r < length s"
  by (auto simp: spaces1_def less_Suc_eq_le length_dropWhile_le split: list.splits if_splits)

lemma quoted_length: "quoted s = Some (d, r) \<Longrightarrow> length r < length s"
proof -
  assume q: "quoted s = Some (d, r)"
  then obtain cs where s: "s = CHR 0x27 # cs"
    and r: "r = tl (dropWhile (\<lambda>x. x \<noteq> CHR 0x27) cs)"
    by (auto simp: quoted_def Let_def split: list.splits if_splits)
  have "length (dropWhile (\<lambda>x. x \<noteq> CHR 0x27) cs) \<le> length cs"
    by (rule length_dropWhile_le)
  then show ?thesis using s r by simp
qed

lemma simpleRegexAt_length: "simpleRegexAt s = Some (d1, d2, r) \<Longrightarrow> length r < length s"
  unfolding simpleRegexAt_def
  by (auto simp: bind_eq_Some_conv dest!: lit_length spaces1_length quoted_length)

lemma betweenRegexAt_length: "betweenRegexAt s = Some (d1, d2, r) \<Longrightarrow> length r < length s"
  unfolding betweenRegexAt_def
  by (auto simp: bind_eq_Some_conv dest!: lit_length spaces1_length simpleRegexAt_length)

text \<open>
  The function given to \<open>ReplaceAllStringFunc\<close>.  It matches the expression again on the text
  of the match, which gives the same two groups, converts each on its own and writes the
  clause with typed literals.
\<close>

definition rewriteBetween :: "string \<Rightarrow> string \<Rightarrow> string" where
  "rewriteBetween date1 date2 =
     ''time_dt BETWEEN TIMESTAMP '' @ [CHR 0x27] @ jstToUtc date1 @ [CHR 0x27] @
     '' AND TIMESTAMP '' @ [CHR 0x27] @ jstToUtc date2 @ [CHR 0x27]"

text \<open>
  \<open>re.ReplaceAllStringFunc\<close>: the matches are found from left to right, each search starting
  where the match before ended.
\<close>

function ReplaceAllBetween :: "string \<Rightarrow> string" where
  "ReplaceAllBetween [] = []"
| "ReplaceAllBetween (c # cs) =
     (case betweenRegexAt (c # cs) of
        Some (date1, date2, rest) \<Rightarrow> rewriteBetween date1 date2 @ ReplaceAllBetween rest
      | None \<Rightarrow> c # ReplaceAllBetween cs)"
  by pat_completeness auto
termination
  by (relation "measure length") (auto dest: betweenRegexAt_length)

text \<open>\<open>re.FindAllStringSubmatch(query, -1)\<close> for the second expression: the groups of every match.\<close>

function FindAllSimple :: "string \<Rightarrow> (string \<times> string) list" where
  "FindAllSimple [] = []"
| "FindAllSimple (c # cs) =
     (case simpleRegexAt (c # cs) of
        Some (date1, date2, rest) \<Rightarrow> (date1, date2) # FindAllSimple rest
      | None \<Rightarrow> FindAllSimple cs)"
  by pat_completeness auto
termination
  by (relation "measure length") (auto dest: simpleRegexAt_length)

definition tableAp :: string where
  "tableAp = ''amazon_security_lake_table_ap_northeast_1_waf_2_0''"

definition tableUs :: string where
  "tableUs = ''amazon_security_lake_table_us_east_1_waf_2_0''"

definition qualifyTables :: "string \<Rightarrow> string" where
  "qualifyTables query =
     (if \<not> Contains query ''amazon_security_lake_glue_db'' then
        (let query =
               (if Contains query tableAp \<and>
                   \<not> Contains query ''amazon_security_lake_glue_db_ap_northeast_1''
                then ReplaceEvery query tableAp (''amazon_security_lake_glue_db_ap_northeast_1.'' @ tableAp)
                else query)
         in if Contains query tableUs \<and>
               \<not> Contains query ''amazon_security_lake_glue_db_us_east_1''
            then ReplaceEvery query tableUs (''amazon_security_lake_glue_db_us_east_1.'' @ tableUs)
            else query)
      else query)"

definition expandYear :: "string \<times> string \<Rightarrow> string \<Rightarrow> string" where
  \<comment> \<open>the body of the loop over the matches\<close>
  "expandYear m query =
     (let date1 = fst m; date2 = snd m;
          query =
            (if length date1 = 4 \<and> isNumeric date1
             then ReplaceFirst query ([CHR 0x27] @ date1 @ [CHR 0x27])
                    (''TIMESTAMP '' @ [CHR 0x27] @ date1 @ ''-01-01 00:00:00'' @ [CHR 0x27])
             else query)
      in if length date2 = 4 \<and> isNumeric date2
         then ReplaceFirst query ([CHR 0x27] @ date2 @ [CHR 0x27])
                (''TIMESTAMP '' @ [CHR 0x27] @ date2 @ ''-12-31 23:59:59'' @ [CHR 0x27])
         else query)"

definition preprocessSqlQuery :: "string \<Rightarrow> string" where
  "preprocessSqlQuery query =
     (let query = TrimSpace query;
          query = qualifyTables query;
          query = ReplaceAllBetween query
      in foldl (\<lambda>q m. expandYear m q) query (FindAllSimple query))"


section \<open>The result table\<close>

text \<open>
  An \<open>athena.Row\<close> is a list of data, each with a \<open>VarCharValue\<close> that may be nil: a list of
  \<open>string option\<close>.  \<open>rows ! 0\<close> holds the header labels.
\<close>

type_synonym row = "string option list"

text \<open>
  \<open>fmt.Sprintf("%-Ns", v)\<close> pads \<open>v\<close> with spaces on the right up to \<open>N\<close> runes, where the
  runes of \<open>v\<close> are counted by \<open>utf8.RuneCountInString\<close>: a well-formed UTF-8 sequence is one
  rune, any other byte is one rune by itself.
\<close>

definition inRange :: "nat \<Rightarrow> nat \<Rightarrow> char \<Rightarrow> bool" where
  "inRange lo hi c = (lo \<le> of_char c \<and> (of_char c :: nat) \<le> hi)"

definition runeWidth :: "string \<Rightarrow> nat" where
  "runeWidth s =
     (case s of
        [] \<Rightarrow> 1
      | b0 # r \<Rightarrow>
          if inRange 0xC2 0xDF b0 then
            (case r of b1 # _ \<Rightarrow> if inRange 0x80 0xBF b1 then 2 else 1 | _ \<Rightarrow> 1)
          else if inRange 0xE0 0xEF b0 then
            (case r of
               b1 # b2 # _ \<Rightarrow>
                 if inRange (if b0 = CHR 0xE0 then 0xA0 else 0x80)
                            (if b0 = CHR 0xED then 0x9F else 0xBF) b1 \<and> inRange 0x80 0xBF b2
                 then 3 else 1
             | _ \<Rightarrow> 1)
          else if inRange 0xF0 0xF4 b0 then
            (case r of
               b1 # b2 # b3 # _ \<Rightarrow>
                 if inRange (if b0 = CHR 0xF0 then 0x90 else 0x80)
                            (if b0 = CHR 0xF4 then 0x8F else 0xBF) b1 \<and>
                    inRange 0x80 0xBF b2 \<and> inRange 0x80 0xBF b3
                 then 4 else 1
             | _ \<Rightarrow> 1)
          else 1)"

lemma runeWidth_pos: "0 < runeWidth s"
  by (simp add: runeWidth_def split: list.splits)

function RuneCountInString :: "string \<Rightarrow> nat" where
  "RuneCountInString [] = 0"
| "RuneCountInString (c # cs) = Suc (RuneCountInString (drop (runeWidth (c # cs)) (c # cs)))"
  by pat_completeness auto
termination
proof (relation "measure length")
  fix c :: char and cs :: string
  have "0 < runeWidth (c # cs)" by (rule runeWidth_pos)
  then show "(drop (runeWidth (c # cs)) (c # cs), c # cs) \<in> measure length"
    by simp
qed simp

definition padRight :: "nat \<Rightarrow> string \<Rightarrow> string" where
  \<comment> \<open>\<open>fmt.Sprintf("%-ws", v)\<close>\<close>
  "padRight w v = v @ replicate (w - RuneCountInString v) CHR '' ''"

definition labelled :: "row \<Rightarrow> (nat \<times> string) list" where
  \<comment> \<open>the columns of the header row with a label: position and label\<close>
  "labelled hdr = concat (map (\<lambda>(i, d). case d of None \<Rightarrow> [] | Some n \<Rightarrow> [(i, n)]) (enumerate 0 hdr))"

definition selectColumns :: "row \<Rightarrow> (nat \<times> string) list" where
  \<comment> \<open>\<open>colIndices\<close> and \<open>headers\<close>, side by side\<close>
  "selectColumns hdr =
     (let normal = filter (\<lambda>(i, n). \<not> HasPrefix n ''_col'') (labelled hdr);
          colHeaders = filter (\<lambda>(i, n). HasPrefix n ''_col'') (labelled hdr);
          cols = (if normal = [] \<and> colHeaders \<noteq> []
                  then filter (\<lambda>(i, n). n \<noteq> ''_col0'' \<and> HasPrefix n ''_col'') (labelled hdr)
                  else normal)
      in if cols = [] then labelled hdr else cols)"

definition widen :: "nat list \<Rightarrow> row \<Rightarrow> nat list \<Rightarrow> nat list" where
  \<comment> \<open>one data row's part in the column widths\<close>
  "widen colIndices r colWidths =
     map (\<lambda>(colIdx, w).
            if colIdx < length r
            then (case r ! colIdx of Some v \<Rightarrow> (if w < length v then length v else w) | None \<Rightarrow> w)
            else w)
         (zip colIndices colWidths)"

definition cell :: "row \<Rightarrow> nat \<Rightarrow> string" where
  "cell r colIdx =
     (if colIdx < length r then (case r ! colIdx of Some v \<Rightarrow> v | None \<Rightarrow> ''NULL'') else ''N/A'')"

definition dataLine :: "nat list \<Rightarrow> nat list \<Rightarrow> row \<Rightarrow> string" where
  "dataLine colIndices colWidths r =
     concat (map (\<lambda>(colIdx, w). padRight (w + 2) (cell r colIdx)) (zip colIndices colWidths)) @
     [CHR 0x0A]"

definition colWidthsOf :: "(nat \<times> string) list \<Rightarrow> row list \<Rightarrow> nat list" where
  \<comment> \<open>the header's length, made wider by each of the rows shown\<close>
  "colWidthsOf cols shown =
     foldl (\<lambda>ws r. widen (map fst cols) r ws) (map (\<lambda>(i, h). length h) cols) shown"

definition headerLine :: "string list \<Rightarrow> nat list \<Rightarrow> string" where
  "headerLine headers colWidths =
     concat (map (\<lambda>(h, w). padRight (w + 2) h) (zip headers colWidths)) @ [CHR 0x0A]"

definition separatorLine :: "nat list \<Rightarrow> string" where
  "separatorLine colWidths = concat (map (\<lambda>w. replicate (w + 2) CHR ''-'') colWidths) @ [CHR 0x0A]"

definition formatAthenaResults :: "row list \<Rightarrow> string" where
  "formatAthenaResults rows =
     (if rows = [] then ''No results found''
      else
        let cols = selectColumns (rows ! 0);
            headers = map snd cols;
            colIndices = map fst cols
        in if headers = [] then ''No displayable columns found''
           else
             let maxRows = (if 20 < length rows then 20 else length rows);
                 shown = take (maxRows - 1) (drop 1 rows);
                 colWidths = colWidthsOf cols shown
             in ''```'' @ [CHR 0x0A] @
                headerLine headers colWidths @
                separatorLine colWidths @
                concat (map (dataLine colIndices colWidths) shown) @
                (if 20 < length rows then ''...(Results limited to 20 rows)'' @ [CHR 0x0A] else []) @
                ''```'' @ [CHR 0x0A])"

section \<open>The region router\<close>

definition getQueryRegion :: "string \<Rightarrow> string" where
  "getQueryRegion query =
     (if Contains query ''amazon_security_lake_glue_db_us_east_1'' \<or>
         Contains query ''amazon_security_lake_table_us_east_1'' \<or>
         Contains query ''waf_2_0_us_east_1''
      then ''us-east-1''
      else if Contains query ''frontend'' then ''us-east-1''
      else if Contains query ''global/webacl'' then ''us-east-1''
      else ''ap-northeast-1'')"

section \<open>The query executor\<close>

text \<open>
  \<open>strings.ToUpper\<close> maps the letters \<open>a\<close> to \<open>z\<close> of a string of ASCII characters to upper
  case; any other string goes through \<open>strings.Map(unicode.ToUpper, s)\<close>, whose case tables
  are not part of this development: that mapping is the parameter \<open>upperMap\<close>.
\<close>

definition asciiUpper :: "char \<Rightarrow> char" where
  "asciiUpper c =
     (if 97 \<le> (of_char c :: nat) \<and> (of_char c :: nat) \<le> 122 then char_of (of_char c - 32 :: nat) else c)"

definition isASCII :: "string \<Rightarrow> bool" where
  "isASCII s = list_all (\<lambda>c. (of_char c :: nat) < 128) s"

definition ToUpper :: "(string \<Rightarrow> string) \<Rightarrow> string \<Rightarrow> string" where
  "ToUpper upperMap s = (if isASCII s then map asciiUpper s else upperMap s)"

text \<open>
  The Athena service is what it answers.  \<open>startReply\<close> answers \<open>StartQueryExecution\<close> with an
  error or an execution id, \<open>stopReply\<close> answers \<open>StopQueryExecution\<close> with an error or
  nothing, \<open>resultsReply\<close> answers \<open>GetQueryResults\<close> with an error or the rows and the
  \<open>NextToken\<close>.  \<open>statusReplies\<close> are the answers to the calls of \<open>GetQueryExecution\<close> that the
  polling goroutine completes, one per tick, before the 45 second context is done: an error,
  or the state and the \<open>StateChangeReason\<close>.  When they are used up with no return from the
  goroutine, the context is done; the main flow, waiting in its \<open>select\<close> since the query
  was started, is woken by the context and takes that case.
\<close>

datatype statusReply = StatusError string | Status string "string option"

record athenaReplies =
  startReply :: "string + string"
  statusReplies :: "statusReply list"
  stopReply :: "string option"
  resultsReply :: "string + row list \<times> string option"

text \<open>
  What the executor does to the world: the calls it makes to the service and, for the
  deadline case, the lines it logs.
\<close>

datatype event =
    StartQueryExecution string string string string string
  | GetQueryExecution string
  | StopQueryExecution string
  | GetQueryResults string nat
  | Log string
  | SlackPost string string

datatype pollEnd = Done string string | DeadlineExceeded

text \<open>
  The goroutine.  \<open>poll qid state replies\<close> returns the calls made and how the wait of the main
  flow ends: \<open>Done errorMsg state\<close> when the goroutine returned and closed \<open>doneCh\<close>, with the
  two variables it shares with the main flow, or \<open>DeadlineExceeded\<close>.
\<close>

fun poll :: "string \<Rightarrow> string \<Rightarrow> statusReply list \<Rightarrow> event list \<times> pollEnd" where
  "poll qid state [] = ([], DeadlineExceeded)"
| "poll qid state (StatusError err # replies) =
     ([GetQueryExecution qid], Done (''Failed to get query status: '' @ err) state)"
| "poll qid state (Status st reason # replies) =
     (if st = ''SUCCEEDED'' then ([GetQueryExecution qid], Done [] st)
      else if st = ''FAILED'' then
        ([GetQueryExecution qid],
         Done (''Athena query failed: '' @ (case reason of None \<Rightarrow> ''Unknown error'' | Some r \<Rightarrow> r)) st)
      else if st = ''CANCELLED'' then ([GetQueryExecution qid], Done ''Athena query was cancelled'' st)
      else (let (evs, e) = poll qid st replies in (GetQueryExecution qid # evs, e)))"

text \<open>The package-level variables that are set when the process starts.\<close>

record config =
  athenaDB :: string
  athenaOutput :: string
  athenaWorkgroup :: string
  slackToken :: string
  showSqlInSlack :: bool
  showQueryIdInSlack :: bool

definition s3PathFor :: "config \<Rightarrow> string \<Rightarrow> string" where
  "s3PathFor cfg region =
     (let s3Path = ''s3://'' @ athenaOutput cfg @ ''/''
      in if region = ''us-east-1'' \<and> Contains (athenaOutput cfg) ''ap-northeast-1'' then
           (let s3Path = ReplaceFirst s3Path ''ap-northeast-1'' ''us-east-1''
            in if Contains s3Path ''xxx'' then ReplaceFirst s3Path ''xxx'' ''xxx'' else s3Path)
         else s3Path)"

definition dbNameFor :: "config \<Rightarrow> string \<Rightarrow> string" where
  \<comment> \<open>\<open>strings.Split(dbName, ".")[0]\<close> is the text before the first period\<close>
  "dbNameFor cfg region =
     (let dbNameOnly = takeWhile (\<lambda>c. c \<noteq> CHR ''.'') (athenaDB cfg)
      in if region = ''us-east-1''
         then ReplaceEvery (ReplaceEvery dbNameOnly ''ap_northeast_1'' ''us_east_1'')
                ''ap-northeast-1'' ''us-east-1''
         else dbNameOnly)"

text \<open>
  \<open>runAthenaQuery\<close> returns the execution id, the rows (\<open>[]\<close> for nil), the error message and
  the region, and with them the events of the run.  \<open>queryTimeout\<close> is 45 seconds, which
  \<open>%v\<close> prints as \<open>45s\<close> and \<open>%.0f\<close> of its seconds as \<open>45\<close>.
\<close>

definition runAthenaQuery ::
  "(string \<Rightarrow> string) \<Rightarrow> config \<Rightarrow> athenaReplies \<Rightarrow> string \<Rightarrow>
   (string \<times> row list \<times> string \<times> string) \<times> event list" where
  "runAthenaQuery upperMap cfg athena query =
     (if Contains (ToUpper upperMap query) ''DROP'' \<or>
         Contains (ToUpper upperMap query) ''DELETE'' \<or>
         Contains (ToUpper upperMap query) ''INSERT'' \<or>
         Contains (ToUpper upperMap query) ''UPDATE''
      then (([], [], ''Invalid SQL command detected'', []), [])
      else
        let query = preprocessSqlQuery query;
            region = getQueryRegion query;
            started = [StartQueryExecution region query (dbNameFor cfg region) (s3PathFor cfg region)
                         (athenaWorkgroup cfg)]
        in case startReply athena of
             Inl err \<Rightarrow> (([], [], ''Athena start error: '' @ err, region), started)
           | Inr qid \<Rightarrow>
               (case poll qid [] (statusReplies athena) of
                  (polled, Done errorMsg state) \<Rightarrow>
                    if errorMsg \<noteq> [] \<or> state \<noteq> ''SUCCEEDED'' then
                      ((qid, [],
                        (if errorMsg = []
                         then ''Athena query did not complete successfully. Final state: '' @ state
                         else errorMsg),
                        region),
                       started @ polled)
                    else
                      (case resultsReply athena of
                         Inl err \<Rightarrow>
                           ((qid, [], ''Failed to get query results: '' @ err, region),
                            started @ polled @ [GetQueryResults qid 20])
                       | Inr (rows, nextToken) \<Rightarrow>
                           ((qid, rows, [], region), started @ polled @ [GetQueryResults qid 20]))
                | (polled, DeadlineExceeded) \<Rightarrow>
                    ((qid, [], ''Query timed out (45 seconds elapsed). Execution aborted.'', region),
                     started @ polled @
                     [Log ''Query timed out after 45s. Cancelling query...'', StopQueryExecution qid] @
                     (case stopReply athena of
                        Some err \<Rightarrow> [Log (''Failed to cancel query: '' @ err)]
                      | None \<Rightarrow> []))))"


text \<open>Words for the runs of the executor: what the goroutine saw, and what was cancelled.\<close>

definition terminal :: "string \<Rightarrow> bool" where
  "terminal st = (st = ''SUCCEEDED'' \<or> st = ''FAILED'' \<or> st = ''CANCELLED'')"

definition observesTerminal :: "statusReply list \<Rightarrow> bool" where
  "observesTerminal replies =
     list_ex (\<lambda>r. case r of Status st reason \<Rightarrow> terminal st | StatusError err \<Rightarrow> False) replies"

definition fetchFails :: "statusReply list \<Rightarrow> bool" where
  "fetchFails replies =
     list_ex (\<lambda>r. case r of Status st reason \<Rightarrow> False | StatusError err \<Rightarrow> True) replies"

definition denied :: "(string \<Rightarrow> string) \<Rightarrow> string \<Rightarrow> bool" where
  "denied up query =
     (Contains (ToUpper up query) ''DROP'' \<or> Contains (ToUpper up query) ''DELETE'' \<or>
      Contains (ToUpper up query) ''INSERT'' \<or> Contains (ToUpper up query) ''UPDATE'')"

definition cancellations :: "event list \<Rightarrow> nat" where
  "cancellations evs =
     length (filter (\<lambda>e. case e of StopQueryExecution qid \<Rightarrow> True | _ \<Rightarrow> False) evs)"

definition cfg0 :: config where
  "cfg0 = \<lparr>athenaDB = ''waf'', athenaOutput = ''out'', athenaWorkgroup = ''primary'',
           slackToken = ''xoxb'', showSqlInSlack = True, showQueryIdInSlack = True\<rparr>"

section \<open>The chat side\<close>

definition promptHead :: string where
  "promptHead =
     ''Generate an Athena SQL query based on the following user request.'' @ [CHR 0x0A] @
     [CHR 0x0A] @
     ''### Table Information:'' @ [CHR 0x0A] @
     ''- Table: amazon_security_lake_glue_db_ap_northeast_1.amazon_security_lake_table_ap_northeast_1_waf_2_0 (WAF test-api table)'' @ [CHR 0x0A] @
     ''- Table: amazon_security_lake_glue_db_us_east_1.amazon_security_lake_table_us_east_1_waf_2_0 (WAF test-frontend table)'' @ [CHR 0x0A] @
     [CHR 0x0A] @
     ''### Main Columns:'' @ [CHR 0x0A] @
     ''- time_dt (timestamp) - Event timestamp'' @ [CHR 0x0A] @
     ''- accountid (string) - AWS Account ID'' @ [CHR 0x0A] @
     ''- metadata.product.feature.uid (string) - WAF identifier'' @ [CHR 0x0A] @
     ''- http_request.url.hostname (string) - Request hostname'' @ [CHR 0x0A] @
     ''- src_endpoint.ip (string) - Source IP address'' @ [CHR 0x0A] @
     ''- unmapped['action'] - WAF action (ALLOW, BLOCK, COUNT)'' @ [CHR 0x0A] @
     [CHR 0x0A] @
     ''### SQL Examples:'' @ [CHR 0x0A] @
     [CHR 0x0A] @
     ''-- Example 1: Count requests by action type'' @ [CHR 0x0A] @
     ''SELECT '' @ [CHR 0x0A] @
     ''    unmapped['action'] AS action_type,'' @ [CHR 0x0A] @
     ''    COUNT(*) AS request_count'' @ [CHR 0x0A] @
     ''FROM amazon_security_lake_glue_db_ap_northeast_1.amazon_security_lake_table_ap_northeast_1_waf_2_0'' @ [CHR 0x0A] @
     ''WHERE '' @ [CHR 0x0A] @
     ''    accountid = 'xxxxxxxxxxxxxx'' @ [CHR 0x27] @ [CHR 0x0A] @
     ''    AND time_dt >= current_date - INTERVAL '1' DAY'' @ [CHR 0x0A] @
     ''    AND src_endpoint.ip NOT IN ('xx.xx.xx.xx', 'xx.xx.xx.xx')'' @ [CHR 0x0A] @
     ''GROUP BY unmapped['action']'' @ [CHR 0x0A] @
     ''ORDER BY request_count DESC'' @ [CHR 0x0A] @
     ''LIMIT 5;'' @ [CHR 0x0A] @
     [CHR 0x0A] @
     ''-- Example 2: Top source IPs'' @ [CHR 0x0A] @
     ''SELECT '' @ [CHR 0x0A] @
     ''    src_endpoint.ip AS source_ip,'' @ [CHR 0x0A] @
     ''    COUNT(*) AS request_count'' @ [CHR 0x0A] @
     ''FROM amazon_security_lake_glue_db_ap_northeast_1.amazon_security_lake_table_ap_northeast_1_waf_2_0'' @ [CHR 0x0A] @
     ''WHERE '' @ [CHR 0x0A] @
     ''    accountid = 'xxxxxxxxxxxxxx'' @ [CHR 0x27] @ [CHR 0x0A] @
     ''    AND time_dt >= current_date - INTERVAL '1' DAY'' @ [CHR 0x0A] @
     ''    AND src_endpoint.ip NOT IN ('xx.xx.xx.xx', 'xx.xx.xx.xx')'' @ [CHR 0x0A] @
     ''GROUP BY src_endpoint.ip'' @ [CHR 0x0A] @
     ''ORDER BY request_count DESC'' @ [CHR 0x0A] @
     ''LIMIT 5;'' @ [CHR 0x0A] @
     [CHR 0x0A] @
     ''-- Example 3: Blocked requests analysis'' @ [CHR 0x0A] @
     ''SELECT '' @ [CHR 0x0A] @
     ''    http_request.url.hostname AS hostname,'' @ [CHR 0x0A] @
     ''    COUNT(*) AS block_count'' @ [CHR 0x0A] @
     ''FROM amazon_security_lake_glue_db_ap_northeast_1.amazon_security_lake_table_ap_northeast_1_waf_2_0'' @ [CHR 0x0A] @
     ''WHERE '' @ [CHR 0x0A] @
     ''    accountid = 'xxxxxxxxxxxxxx'' @ [CHR 0x27] @ [CHR 0x0A] @
     ''    AND unmapped['action'] = 'BLOCK'' @ [CHR 0x27] @ [CHR 0x0A] @
     ''    AND time_dt >= current_date - INTERVAL '1' DAY'' @ [CHR 0x0A] @
     ''    AND src_endpoint.ip NOT IN ('xx.xx.xx.xx', 'xx.xx.xx.xx')'' @ [CHR 0x0A] @
     ''GROUP BY http_request.url.hostname'' @ [CHR 0x0A] @
     ''ORDER BY block_count DESC'' @ [CHR 0x0A] @
     ''LIMIT 5;'' @ [CHR 0x0A] @
     [CHR 0x0A] @
     ''### User Request: ''"

definition promptTail :: string where
  "promptTail =
     [CHR 0x0A] @
     [CHR 0x0A] @
     ''Please generate only the SQL query without any explanation.''"

definition buildPrompt :: "string \<Rightarrow> string" where
  "buildPrompt userText = promptHead @ userText @ promptTail"

text \<open>
  \<open>callBedrock\<close> is the call to the language model: the parameter \<open>callBedrock\<close> of the
  handler gives the text it returns, or \<open>None\<close> where \<open>log.Fatalf\<close> ends the process.
\<close>

definition analyzeResults ::
  "(string \<Rightarrow> string option) \<Rightarrow> string \<Rightarrow> row list \<Rightarrow> string \<Rightarrow> string option" where
  "analyzeResults callBedrock query results userText =
     (if length results \<le> 1 then Some ''No data found. Please try different search criteria.''
      else callBedrock ''[ANALYSIS PROMPT MASKED]'')"

text \<open>\<open>strings.Split(s, sep)\<close> for a non-empty \<open>sep\<close>; \<open>Cut\<close> cuts at the first \<open>sep\<close>.\<close>

fun Cut :: "string \<Rightarrow> string \<Rightarrow> (string \<times> string) option" where
  "Cut [] sep = (if sep = [] then Some ([], []) else None)"
| "Cut (c # cs) sep =
     (if HasPrefix (c # cs) sep then Some ([], drop (length sep) (c # cs))
      else map_option (\<lambda>(before, after). (c # before, after)) (Cut cs sep))"

lemma Cut_length: "Cut s sep = Some (b, a) \<Longrightarrow> sep \<noteq> [] \<Longrightarrow> length a < length s"
  by (induction s arbitrary: b) (auto split: if_splits simp: neq_Nil_conv)

function Split :: "string \<Rightarrow> string \<Rightarrow> string list" where
  "Split s sep =
     (if sep = [] then [s]
      else (case Cut s sep of None \<Rightarrow> [s] | Some (before, after) \<Rightarrow> before # Split after sep))"
  by pat_completeness auto
termination
  by (relation "measure (\<lambda>(s, sep). length s)") (auto dest: Cut_length)

declare Split.simps [simp del]

text \<open>\<open>%d\<close>: an \<open>int\<close> in decimal.\<close>

function digits :: "nat \<Rightarrow> string" where
  "digits n = (if n < 10 then [digitChar (int n)] else digits (n div 10) @ [digitChar (int (n mod 10))])"
  by pat_completeness auto
termination
  by (relation "measure id") auto

declare digits.simps [simp del]

definition showInt :: "int \<Rightarrow> string" where
  "showInt n = (if n < 0 then CHR ''-'' # digits (nat (- n)) else digits (nat n))"

text \<open>
  A \<open>time.Time\<close> is an instant in nanoseconds, and \<open>t.Sub(u)\<close> the difference of two
  instants.  (\<open>Sub\<close> saturates at about 292 years; no comparison of the program tells a
  saturated difference from the true one.)  Every reading of the clock is a parameter: a
  guard reads it in \<open>time.Since\<close> (\<open>sinceNow\<close>), when it records the key (\<open>recordNow\<close>), before
  it deletes old entries (\<open>sweepNow\<close>) and when it records the key again in a cleared cache
  (\<open>clearNow\<close>).
\<close>

record readings =
  sinceNow :: int
  recordNow :: int
  sweepNow :: int
  clearNow :: int

definition seconds :: "int \<Rightarrow> int" where
  "seconds n = n * 1000000000"

definition minutes :: "int \<Rightarrow> int" where
  "minutes n = seconds (60 * n)"

definition len :: "('k, 'v) fmap \<Rightarrow> nat" where
  "len m = fcard (fmdom m)"

definition recently :: "int \<Rightarrow> int \<Rightarrow> (string, int) fmap \<Rightarrow> string \<Rightarrow> bool" where
  \<comment> \<open>the key is in the map and \<open>time.Since\<close> of its time is below the window\<close>
  "recently now window m k =
     (case fmlookup m k of Some lastTime \<Rightarrow> now - lastTime < window | None \<Rightarrow> False)"

definition deleteOlder :: "int \<Rightarrow> int \<Rightarrow> (string, int) fmap \<Rightarrow> (string, int) fmap" where
  \<comment> \<open>the loop that deletes every entry with \<open>now.Sub(t) > d\<close>\<close>
  "deleteOlder now d m =
     fmfilter (\<lambda>k. case fmlookup m k of Some t \<Rightarrow> \<not> d < now - t | None \<Rightarrow> False) m"

subsection \<open>Sending to Slack\<close>

definition contentSignature :: "string \<Rightarrow> string" where
  "contentSignature msg =
     (if 50 < length msg \<and> Contains msg ''*result:*'' then
        (let resultParts = Split msg ''*result:*''
         in if 1 < length resultParts
            then ''WAF result:'' @ hd (Split (resultParts ! 1) [CHR 0x0A])
            else msg)
      else msg)"

text \<open>
  \<open>postToSlack\<close> returns the error (\<open>None\<close> for nil), the cache of sent messages and the
  events.  \<open>send channel msg\<close> is the HTTP exchange with \<open>chat.postMessage\<close>, from the request to
  the decoded answer: the error that \<open>postToSlack\<close> returns for it, or \<open>None\<close> when Slack
  answers \<open>ok\<close>.
\<close>

definition postToSlack ::
  "config \<Rightarrow> (string \<Rightarrow> string \<Rightarrow> string option) \<Rightarrow> readings \<Rightarrow> string \<Rightarrow> string \<Rightarrow>
   (string, int) fmap \<Rightarrow> string option \<times> (string, int) fmap \<times> event list" where
  "postToSlack cfg send clock channel msg sent =
     (let msgHash = channel @ '':'' @ contentSignature msg
      in if recently (sinceNow clock) (minutes 3) sent msgHash then (None, sent, [])
         else
           let sent = fmupd msgHash (recordNow clock) sent;
               sent =
                 (if 50 < len sent
                  then deleteOlder (sweepNow clock) (minutes 10) sent
                  else sent)
           in if slackToken cfg = []
              then (Some ''Slack token is empty. Unable to send message to Slack.'',
                    sent, [])
              else (send channel msg, sent, [SlackPost channel msg]))"

subsection \<open>The handler\<close>

text \<open>
  The request, decoded: the value of the header \<open>X-Slack-Retry-Num\<close> (empty when absent) and
  the body, \<open>None\<close> when it is no JSON object; of the body, the \<open>challenge\<close> string when there
  is one, and the \<open>SlackEventWrapper\<close>, \<open>None\<close> when the body does not decode into it.  Of the
  wrapper, the fields the handler reads.
\<close>

record SlackEventWrapper =
  Type :: string
  EventID :: string
  EventType :: string
  EventText :: string
  EventUser :: string
  EventChannel :: string

record body =
  challenge :: "string option"
  wrapper :: "SlackEventWrapper option"

record request =
  retryNum :: string
  payload :: "body option"

text \<open>The three caches, package-level maps that live as long as the process.\<close>

record caches =
  processedEvents :: "(string, bool) fmap"
  recentQueries :: "(string, int) fmap"
  recentSlackMessages :: "(string, int) fmap"

text \<open>What the handler calls outside the program, and the clock.\<close>

record world =
  upperMap :: "string \<Rightarrow> string"
  callBedrock :: "string \<Rightarrow> string option"
  athena :: athenaReplies
  send :: "string \<Rightarrow> string \<Rightarrow> string option"
  queryClock :: readings
  slackClock :: readings

text \<open>
  The guard on the event id.  \<open>None\<close>: the event is a duplicate; \<open>Some\<close>: it goes on, with the
  cache as the guard leaves it.
\<close>

definition eventKey :: "SlackEventWrapper \<Rightarrow> string" where
  "eventKey w = EventID w @ ''_'' @ EventText w @ ''_'' @ EventChannel w"

definition eventGuard ::
  "SlackEventWrapper \<Rightarrow> (string, bool) fmap \<Rightarrow> (string, bool) fmap option" where
  "eventGuard w events =
     (if EventID w \<noteq> [] then
        (if fmlookup events (eventKey w) \<noteq> None then None
         else
           let events = fmupd (eventKey w) True events
           in if 100 < len events then Some (fmupd (eventKey w) True fmempty)
              else Some events)
      else Some events)"

text \<open>The guard on the recent queries, in the same way.\<close>

definition queryGuard ::
  "readings \<Rightarrow> string \<Rightarrow> (string, int) fmap \<Rightarrow> (string, int) fmap option" where
  "queryGuard clock queryKey queries =
     (if recently (sinceNow clock) (seconds 5) queries queryKey then None
      else
        let queries = fmupd queryKey (recordNow clock) queries
        in if 200 < len queries then
             (let queries = deleteOlder (sweepNow clock) (minutes 10) queries
              in if 150 < len queries
                 then Some (fmupd queryKey (clearNow clock) fmempty)
                 else Some queries)
           else Some queries)"

definition consoleUrlFor :: "string \<Rightarrow> string \<Rightarrow> string" where
  "consoleUrlFor queryRegion qid =
     (if queryRegion = ''us-east-1''
      then ''https://us-east-1.console.aws.amazon.com/athena/home?region=us-east-1#/query-editor/history/'' @ qid
      else ''https://ap-northeast-1.console.aws.amazon.com/athena/home?region=ap-northeast-1#/query-editor/history/'' @ qid)"

definition detailedError :: "string \<Rightarrow> string \<Rightarrow> string \<Rightarrow> string \<Rightarrow> string" where
  "detailedError queryRegion errMsg sql consoleUrl =
     ''Query failed (region: '' @ queryRegion @ ''): '' @ errMsg @ [CHR 0x0A, CHR 0x0A] @
     ''Executed SQL:'' @ [CHR 0x0A] @ ''```'' @ [CHR 0x0A] @ sql @ [CHR 0x0A] @ ''```'' @
     [CHR 0x0A, CHR 0x0A] @
     ''Athena Console: '' @ consoleUrl"

definition resultMessage ::
  "config \<Rightarrow> string \<Rightarrow> string \<Rightarrow> string \<Rightarrow> string \<Rightarrow> row list \<Rightarrow> string \<Rightarrow> string" where
  "resultMessage cfg text sql qid consoleUrl rows analysisResult =
     ''*WAF Log Search Result*'' @ [CHR 0x0A, CHR 0x0A] @
     (if showSqlInSlack cfg then
        ''*Input Prompt:*'' @ [CHR 0x0A] @ ''```'' @ [CHR 0x0A] @
        (if 100 < length text then take 97 text @ ''...'' else text) @
        [CHR 0x0A] @ ''```'' @ [CHR 0x0A, CHR 0x0A] @
        ''*Executed Query:*'' @ [CHR 0x0A] @ ''```'' @ [CHR 0x0A] @ sql @
        [CHR 0x0A] @ ''```'' @ [CHR 0x0A, CHR 0x0A]
      else []) @
     ''*Result:* '' @ showInt (int (length rows) - 1) @ '' rows'' @ [CHR 0x0A] @
     (if showQueryIdInSlack cfg then
        ''*Athena QueryID:* `'' @ qid @ ''`'' @ [CHR 0x0A] @
        ''*Console URL:* '' @ consoleUrl @ [CHR 0x0A, CHR 0x0A]
      else []) @
     (if 1 < length rows then ''*Result Data:*'' @ [CHR 0x0A] @ formatAthenaResults rows
      else ''*Result Data:* No data available'') @
     [CHR 0x0A] @ ''*Analysis Result:*'' @ [CHR 0x0A] @ analysisResult"

text \<open>
  A response of the handler is built by \<open>response(code, body)\<close>, or it is the echo of a
  challenge, with status 200 and other headers.  \<open>handler\<close> returns its response, the caches
  and the events; \<open>None\<close> when the process ends in \<open>callBedrock\<close>.
\<close>

datatype reply = Response nat string | ChallengeEcho string

definition handler ::
  "config \<Rightarrow> world \<Rightarrow> request \<Rightarrow> caches \<Rightarrow> (reply \<times> caches \<times> event list) option" where
  "handler cfg env req st =
     (if retryNum req \<noteq> [] then Some (Response 200 ''retry ignored'', st, [])
      else case payload req of
        None \<Rightarrow> Some (Response 400 ''invalid request'', st, [])
      | Some b \<Rightarrow>
      (case challenge b of
        Some c \<Rightarrow> Some (ChallengeEcho c, st, [])
      | None \<Rightarrow>
      (case wrapper b of
        None \<Rightarrow> Some (Response 400 ''invalid event format'', st, [])
      | Some w \<Rightarrow>
        if Type w \<noteq> ''event_callback'' then Some (Response 200 ''ignored'', st, [])
        else if EventType w \<noteq> ''message'' \<and> EventType w \<noteq> ''app_mention''
        then Some (Response 200 ''ignored non-message event'', st, [])
        else if EventUser w = ''U08N7NYBPAL'' then Some (Response 200 ''ignored bot message'', st, [])
        else case eventGuard w (processedEvents st) of
          None \<Rightarrow> Some (Response 200 ''duplicate event'', st, [])
        | Some events \<Rightarrow>
          let st = st\<lparr>processedEvents := events\<rparr>;
              text = TrimSpace (ReplaceEvery (TrimSpace (EventText w)) ''<@U08N7NYBPAL>'' [])
          in if text = [] \<or> length text < 3 then Some (Response 200 ''ignored empty message'', st, [])
          else case queryGuard (queryClock env) (EventChannel w @ '':'' @ text) (recentQueries st) of
            None \<Rightarrow> Some (Response 200 ''duplicate query ignored'', st, [])
          | Some queries \<Rightarrow>
            let st = st\<lparr>recentQueries := queries\<rparr>
            in case callBedrock env (buildPrompt text) of
              None \<Rightarrow> None
            | Some sql \<Rightarrow>
              let queryRegion = getQueryRegion sql;
                  ((qid, rows, errMsg, region), ran) = runAthenaQuery (upperMap env) cfg (athena env) sql;
                  consoleUrl = consoleUrlFor queryRegion qid
              in if errMsg \<noteq> [] then
                   (let (err, sent, posted) =
                          postToSlack cfg (send env) (slackClock env) (EventChannel w)
                            (detailedError queryRegion errMsg sql consoleUrl) (recentSlackMessages st)
                    in Some (Response 200 ''error reported to slack'',
                             st\<lparr>recentSlackMessages := sent\<rparr>, ran @ posted))
                 else case analyzeResults (callBedrock env) sql rows text of
                   None \<Rightarrow> None
                 | Some analysisResult \<Rightarrow>
                   (let (err, sent, posted) =
                          postToSlack cfg (send env) (slackClock env) (EventChannel w)
                            (resultMessage cfg text sql qid consoleUrl rows analysisResult)
                            (recentSlackMessages st)
                    in Some (Response 200 ''ok'', st\<lparr>recentSlackMessages := sent\<rparr>, ran @ posted)))))"


subsection \<open>Sample inputs\<close>

text \<open>
  A clock that reads \<open>t\<close> at every reading, a world in which Bedrock answers \<open>sql\<close>,
  Athena starts the query as \<open>q-1\<close> and answers the status fetches with \<open>replies\<close>, and
  Slack accepts every message; a mention of the bot without event id; empty caches; and a
  cache of \<open>n\<close> entries with the keys \<open>k\<close>, \<open>kk\<close>, \<open>kkk\<close> and so on.
\<close>

definition reading :: "int \<Rightarrow> readings" where
  "reading t = \<lparr>sinceNow = t, recordNow = t, sweepNow = t, clearNow = t\<rparr>"

definition world0 :: "string \<Rightarrow> statusReply list \<Rightarrow> int \<Rightarrow> world" where
  "world0 sql replies t =
     \<lparr>upperMap = id, callBedrock = (\<lambda>p. Some sql),
      athena = \<lparr>startReply = Inr ''q-1'', statusReplies = replies,
                stopReply = None, resultsReply = Inr ([], None)\<rparr>,
      send = (\<lambda>c m. None), queryClock = reading t, slackClock = reading t\<rparr>"

definition mention :: SlackEventWrapper where
  "mention =
     \<lparr>Type = ''event_callback'', EventID = [], EventType = ''app_mention'',
      EventText = ''<@U08N7NYBPAL> top ips'', EventUser = ''U1'', EventChannel = ''C1''\<rparr>"

definition delivery :: request where
  "delivery = \<lparr>retryNum = [], payload = Some \<lparr>challenge = None, wrapper = Some mention\<rparr>\<rparr>"

definition noCaches :: caches where
  "noCaches = \<lparr>processedEvents = fmempty, recentQueries = fmempty, recentSlackMessages = fmempty\<rparr>"

definition fill :: "nat \<Rightarrow> 'v \<Rightarrow> (string, 'v) fmap" where
  "fill n v = fmap_of_list (map (\<lambda>i. (replicate (Suc i) CHR ''k'', v)) [0..<n])"

definition rows25 :: "row list" where
  \<comment> \<open>a header and 25 data rows, \<open>r01\<close> to \<open>r25\<close>\<close>
  "rows25 = [Some ''n''] # map (\<lambda>i. [Some (''r'' @ pad2 (int i))]) [1..<26]"

definition need :: "row \<Rightarrow> nat \<Rightarrow> nat" where
  \<comment> \<open>the width that the datum of row \<open>r\<close> in column \<open>i\<close> asks for\<close>
  "need r i = (if i < length r then (case r ! i of Some v \<Rightarrow> length v | None \<Rightarrow> 0) else 0)"

text \<open>
  A quoted bound of a BETWEEN clause holds at least one character and no quote; the clause
  as the model writes it, and as the rewriter writes it.
\<close>

definition literal :: "string \<Rightarrow> bool" where
  "literal d = (d \<noteq> [] \<and> CHR 0x27 \<notin> set d)"

definition clause :: "string \<Rightarrow> string \<Rightarrow> string" where
  "clause d1 d2 =
     ''time_dt BETWEEN '' @ [CHR 0x27] @ d1 @ [CHR 0x27] @ '' AND '' @ [CHR 0x27] @ d2 @ [CHR 0x27]"

definition typedClause :: "string \<Rightarrow> string \<Rightarrow> string" where
  "typedClause d1 d2 =
     ''time_dt BETWEEN TIMESTAMP '' @ [CHR 0x27] @ d1 @ [CHR 0x27] @
     '' AND TIMESTAMP '' @ [CHR 0x27] @ d2 @ [CHR 0x27]"

text \<open>
  Words for the texts of the rewriter: a run of white space of the regular expression; the
  text of a match of the first expression; the characters of a table name and a name made
  of them; the characters of a timestamp; a text whose tables the rewriter leaves alone; a
  byte that belongs to no white-space rune; a text without white space at its head, at its
  end; and two texts that differ only after, or only before, a place where both have such a
  byte.
\<close>

definition blank :: "string \<Rightarrow> bool" where
  "blank w = (w \<noteq> [] \<and> list_all reSpace w)"

definition regionOld :: "string \<Rightarrow> string \<Rightarrow> string \<Rightarrow> string \<Rightarrow> string \<Rightarrow> string \<Rightarrow> string" where
  "regionOld w1 w2 d1 w3 w4 d2 =
     ''time_dt'' @ w1 @ ''BETWEEN'' @ w2 @ [CHR 0x27] @ d1 @ [CHR 0x27] @ w3 @ ''AND'' @ w4 @
     [CHR 0x27] @ d2 @ [CHR 0x27]"

definition wordChar :: "char \<Rightarrow> bool" where
  "wordChar c = (let n = (of_char c :: nat) in 97 \<le> n \<and> n \<le> 122 \<or> 48 \<le> n \<and> n \<le> 57 \<or> n = 95)"

definition tableWord :: "string \<Rightarrow> bool" where
  "tableWord p = (20 < length p \<and> list_all wordChar p \<and> CHR ''a'' \<in> set p)"


definition isQualified :: "string \<Rightarrow> bool" where
  "isQualified s =
     (Contains s ''amazon_security_lake_glue_db'' \<or> \<not> Contains s tableAp \<and> \<not> Contains s tableUs)"

definition plain :: "char \<Rightarrow> bool" where
  "plain c = list_all (\<lambda>r. c \<notin> set r) spaceRunes"

definition noLead :: "string \<Rightarrow> bool" where
  "noLead s = (spaceWidth spaceRunes s = 0)"

definition noTrail :: "string \<Rightarrow> bool" where
  "noTrail s = (spaceWidth (map rev spaceRunes) (rev s) = 0)"







definition marks :: "string \<Rightarrow> nat" where
  "marks s = count_list s CHR ''M''"

section \<open>Properties of the executor\<close>

lemma HasPrefix_append: "HasPrefix s (a @ b) \<Longrightarrow> HasPrefix s a"
  by (induction s a rule: HasPrefix.induct) auto

lemma Contains_append: "Contains s (a @ b) \<Longrightarrow> Contains s a"
  by (induction s) (auto dest: HasPrefix_append)

lemma Contains_DROP: "Contains s ''DROP TABLE X'' \<Longrightarrow> Contains s ''DROP''"
  using Contains_append [of s "''DROP''" "'' TABLE X''"] by simp

text \<open>
  C3.  A query whose upper-cased text contains \<open>DROP\<close>, \<open>DELETE\<close>, \<open>INSERT\<close> or \<open>UPDATE\<close> is
  rejected with the error \<open>Invalid SQL command detected\<close>: \<open>runAthenaQuery\<close> returns no
  execution id, no rows and no region, and makes no call to Athena at all, so nothing is
  submitted.  Every ASCII text that contains \<open>DROP TABLE x\<close> in any mix of upper and lower
  case is such a query.
\<close>

theorem runAthenaQuery_deny_list:
  assumes "Contains (ToUpper up query) ''DROP'' \<or>
           Contains (ToUpper up query) ''DELETE'' \<or>
           Contains (ToUpper up query) ''INSERT'' \<or>
           Contains (ToUpper up query) ''UPDATE'' \<or>
           isASCII query \<and> Contains (map asciiUpper query) ''DROP TABLE X''"
  shows "runAthenaQuery up cfg replies query =
           (([], [], ''Invalid SQL command detected'', []), [])"
proof -
  have "isASCII query \<and> Contains (map asciiUpper query) ''DROP TABLE X''
        \<Longrightarrow> Contains (ToUpper up query) ''DROP''"
    by (auto simp: ToUpper_def dest: Contains_DROP)
  with assms show ?thesis
    by (auto simp: runAthenaQuery_def)
qed

theorem runAthenaQuery_deny_list_witness:
  "isASCII ''select 1; dRoP tAbLe x'' \<and>
   Contains (map asciiUpper ''select 1; dRoP tAbLe x'') ''DROP TABLE X'' \<and>
   runAthenaQuery id cfg0
     \<lparr>startReply = Inr ''q-1'', statusReplies = [Status ''SUCCEEDED'' None], stopReply = None,
      resultsReply = Inr ([], None)\<rparr>
     ''select 1; dRoP tAbLe x'' = (([], [], ''Invalid SQL command detected'', []), [])"
proof -
  have h: "isASCII ''select 1; dRoP tAbLe x'' \<and>
           Contains (map asciiUpper ''select 1; dRoP tAbLe x'') ''DROP TABLE X''"
    by code_simp
  then show ?thesis
    using runAthenaQuery_deny_list [of id "''select 1; dRoP tAbLe x''"] by blast
qed


lemma poll_running:
  "\<not> observesTerminal rs \<Longrightarrow> \<not> fetchFails rs \<Longrightarrow>
   poll qid st rs = (replicate (length rs) (GetQueryExecution qid), DeadlineExceeded)"
proof (induction rs arbitrary: st)
  case Nil
  then show ?case by simp
next
  case (Cons r rs)
  then show ?case
    by (cases r) (auto simp: observesTerminal_def fetchFails_def terminal_def)
qed

lemma poll_fetch_fails:
  "\<not> observesTerminal pre \<Longrightarrow> \<not> fetchFails pre \<Longrightarrow>
   \<exists>st'. poll qid st (pre @ StatusError err # post) =
     (replicate (Suc (length pre)) (GetQueryExecution qid),
      Done (''Failed to get query status: '' @ err) st')"
proof (induction pre arbitrary: st)
  case Nil
  then show ?case by simp
next
  case (Cons r rs)
  from Cons.prems obtain s reason where r: "r = Status s reason" and n: "\<not> terminal s"
    and o: "\<not> observesTerminal rs" and f: "\<not> fetchFails rs"
    by (cases r) (auto simp: observesTerminal_def fetchFails_def)
  from Cons.IH [OF o f, of s] obtain st' where
    "poll qid s (rs @ StatusError err # post) =
       (replicate (Suc (length rs)) (GetQueryExecution qid),
        Done (''Failed to get query status: '' @ err) st')" by blast
  then have "poll qid st ((r # rs) @ StatusError err # post) =
       (replicate (Suc (length (r # rs))) (GetQueryExecution qid),
        Done (''Failed to get query status: '' @ err) st')"
    using r n by (simp add: terminal_def)
  then show ?case by blast
qed

lemma fetchFails_first:
  "fetchFails rs \<Longrightarrow> \<exists>pre err post. rs = pre @ StatusError err # post \<and> \<not> fetchFails pre"
proof (induction rs)
  case Nil
  then show ?case by (simp add: fetchFails_def)
next
  case (Cons r rs)
  show ?case
  proof (cases r)
    case (StatusError e)
    then have "r # rs = [] @ StatusError e # rs \<and> \<not> fetchFails []"
      by (simp add: fetchFails_def)
    then show ?thesis by blast
  next
    case (Status st reason)
    with Cons.prems have "fetchFails rs" by (simp add: fetchFails_def)
    from Cons.IH [OF this] obtain pre err post where
      "rs = pre @ StatusError err # post" "\<not> fetchFails pre" by blast
    with Status have "r # rs = (r # pre) @ StatusError err # post \<and> \<not> fetchFails (r # pre)"
      by (simp add: fetchFails_def)
    then show ?thesis by blast
  qed
qed

text \<open>
  C2, as the claim states it, fails: a polling loop whose first status fetch fails has seen no
  terminal state, and yet the run ends at once with the status error, with no timeout and
  no cancellation.
\<close>

theorem runAthenaQuery_deadline_counterexample:
  "\<not> denied id ''SELECT 1'' \<and>
   \<not> observesTerminal [StatusError ''throttled''] \<and>
   fst (runAthenaQuery id cfg0
          \<lparr>startReply = Inr ''q-1'', statusReplies = [StatusError ''throttled''],
           stopReply = None, resultsReply = Inr ([], None)\<rparr> ''SELECT 1'') =
     (''q-1'', [], ''Failed to get query status: throttled'', ''ap-northeast-1'') \<and>
   cancellations (snd (runAthenaQuery id cfg0
          \<lparr>startReply = Inr ''q-1'', statusReplies = [StatusError ''throttled''],
           stopReply = None, resultsReply = Inr ([], None)\<rparr> ''SELECT 1'')) = 0"
  by code_simp

text \<open>
  C2, amended.  When the query is submitted and the polling loop sees no terminal state,
  what \<open>runAthenaQuery\<close> does depends on the status fetches.  When every fetch before the
  deadline succeeds, it returns the execution id, no rows, the message of the 45 second
  timeout and the region; it calls \<open>StopQueryExecution\<close> exactly once, for that id; what that
  call answers does not change what is returned, and its failure is logged.  When a fetch
  fails, and there is then a first one that does, the run ends with that fetch: it returns
  the execution id, no rows, the status error and the region, after the submission and one
  fetch for every reply up to the failing one, and it calls \<open>StopQueryExecution\<close> not once.
\<close>

theorem runAthenaQuery_deadline:
  assumes "\<not> denied up query"
    and "startReply replies = Inr qid"
    and "\<not> observesTerminal (statusReplies replies)"
  shows "(\<not> fetchFails (statusReplies replies) \<longrightarrow>
           fst (runAthenaQuery up cfg replies query) =
             (qid, [], ''Query timed out (45 seconds elapsed). Execution aborted.'',
              getQueryRegion (preprocessSqlQuery query)) \<and>
           cancellations (snd (runAthenaQuery up cfg replies query)) = 1 \<and>
           StopQueryExecution qid \<in> set (snd (runAthenaQuery up cfg replies query)) \<and>
           fst (runAthenaQuery up cfg (replies\<lparr>stopReply := r\<rparr>) query) =
             fst (runAthenaQuery up cfg replies query) \<and>
           (\<forall>err. stopReply replies = Some err \<longrightarrow>
              Log (''Failed to cancel query: '' @ err) \<in> set (snd (runAthenaQuery up cfg replies query)))) \<and>
         (fetchFails (statusReplies replies) \<longrightarrow>
           (\<exists>pre err post. statusReplies replies = pre @ StatusError err # post \<and> \<not> fetchFails pre)) \<and>
         (\<forall>pre err post. statusReplies replies = pre @ StatusError err # post \<and> \<not> fetchFails pre \<longrightarrow>
           runAthenaQuery up cfg replies query =
             ((qid, [], ''Failed to get query status: '' @ err, getQueryRegion (preprocessSqlQuery query)),
              StartQueryExecution (getQueryRegion (preprocessSqlQuery query)) (preprocessSqlQuery query)
                (dbNameFor cfg (getQueryRegion (preprocessSqlQuery query)))
                (s3PathFor cfg (getQueryRegion (preprocessSqlQuery query))) (athenaWorkgroup cfg) #
              replicate (Suc (length pre)) (GetQueryExecution qid)) \<and>
           cancellations (snd (runAthenaQuery up cfg replies query)) = 0)"
proof -
  let ?region = "getQueryRegion (preprocessSqlQuery query)"
  have A: "\<not> fetchFails (statusReplies replies) \<longrightarrow>
           fst (runAthenaQuery up cfg replies query) =
             (qid, [], ''Query timed out (45 seconds elapsed). Execution aborted.'', ?region) \<and>
           cancellations (snd (runAthenaQuery up cfg replies query)) = 1 \<and>
           StopQueryExecution qid \<in> set (snd (runAthenaQuery up cfg replies query)) \<and>
           fst (runAthenaQuery up cfg (replies\<lparr>stopReply := r\<rparr>) query) =
             fst (runAthenaQuery up cfg replies query) \<and>
           (\<forall>err. stopReply replies = Some err \<longrightarrow>
              Log (''Failed to cancel query: '' @ err) \<in> set (snd (runAthenaQuery up cfg replies query)))"
    using assms poll_running [of "statusReplies replies" qid "[]"]
    by (auto simp: runAthenaQuery_def denied_def Let_def cancellations_def split: option.splits)
  have B: "fetchFails (statusReplies replies) \<longrightarrow>
           (\<exists>pre err post. statusReplies replies = pre @ StatusError err # post \<and> \<not> fetchFails pre)"
    using fetchFails_first by blast
  have C: "\<forall>pre err post. statusReplies replies = pre @ StatusError err # post \<and> \<not> fetchFails pre \<longrightarrow>
           runAthenaQuery up cfg replies query =
             ((qid, [], ''Failed to get query status: '' @ err, ?region),
              StartQueryExecution ?region (preprocessSqlQuery query)
                (dbNameFor cfg ?region) (s3PathFor cfg ?region) (athenaWorkgroup cfg) #
              replicate (Suc (length pre)) (GetQueryExecution qid)) \<and>
           cancellations (snd (runAthenaQuery up cfg replies query)) = 0"
  proof (intro allI impI)
    fix pre err post
    assume a: "statusReplies replies = pre @ StatusError err # post \<and> \<not> fetchFails pre"
    have "\<not> observesTerminal pre"
      using assms(3) a by (simp add: observesTerminal_def)
    with a obtain st' where p: "poll qid [] (statusReplies replies) =
       (replicate (Suc (length pre)) (GetQueryExecution qid),
        Done (''Failed to get query status: '' @ err) st')"
      using poll_fetch_fails [of pre qid "[]" err post] by auto
    show "runAthenaQuery up cfg replies query =
             ((qid, [], ''Failed to get query status: '' @ err, ?region),
              StartQueryExecution ?region (preprocessSqlQuery query)
                (dbNameFor cfg ?region) (s3PathFor cfg ?region) (athenaWorkgroup cfg) #
              replicate (Suc (length pre)) (GetQueryExecution qid)) \<and>
           cancellations (snd (runAthenaQuery up cfg replies query)) = 0"
      using assms(1,2) p
      by (simp add: runAthenaQuery_def denied_def Let_def cancellations_def)
  qed
  show ?thesis by (rule conjI [OF A conjI [OF B C]])
qed


theorem runAthenaQuery_deadline_witness:
  "\<not> denied id ''SELECT 1'' \<and>
   \<not> observesTerminal [Status ''QUEUED'' None, Status ''RUNNING'' None] \<and>
   \<not> fetchFails [Status ''QUEUED'' None, Status ''RUNNING'' None] \<and>
   fst (runAthenaQuery id cfg0
          \<lparr>startReply = Inr ''q-1'', statusReplies = [Status ''QUEUED'' None, Status ''RUNNING'' None],
           stopReply = Some ''AccessDenied'', resultsReply = Inr ([], None)\<rparr> ''SELECT 1'') =
     (''q-1'', [], ''Query timed out (45 seconds elapsed). Execution aborted.'',
      getQueryRegion (preprocessSqlQuery ''SELECT 1'')) \<and>
   cancellations (snd (runAthenaQuery id cfg0
          \<lparr>startReply = Inr ''q-1'', statusReplies = [Status ''QUEUED'' None, Status ''RUNNING'' None],
           stopReply = Some ''AccessDenied'', resultsReply = Inr ([], None)\<rparr> ''SELECT 1'')) = 1 \<and>
   Log ''Failed to cancel query: AccessDenied'' \<in>
     set (snd (runAthenaQuery id cfg0
          \<lparr>startReply = Inr ''q-1'', statusReplies = [Status ''QUEUED'' None, Status ''RUNNING'' None],
           stopReply = Some ''AccessDenied'', resultsReply = Inr ([], None)\<rparr> ''SELECT 1'')) \<and>
   \<not> observesTerminal [Status ''RUNNING'' None, StatusError ''throttled'', Status ''RUNNING'' None] \<and>
   \<not> fetchFails [Status ''RUNNING'' None] \<and>
   fst (runAthenaQuery id cfg0
          \<lparr>startReply = Inr ''q-1'',
           statusReplies = [Status ''RUNNING'' None, StatusError ''throttled'', Status ''RUNNING'' None],
           stopReply = None, resultsReply = Inr ([], None)\<rparr> ''SELECT 1'') =
     (''q-1'', [], ''Failed to get query status: throttled'',
      getQueryRegion (preprocessSqlQuery ''SELECT 1'')) \<and>
   cancellations (snd (runAthenaQuery id cfg0
          \<lparr>startReply = Inr ''q-1'',
           statusReplies = [Status ''RUNNING'' None, StatusError ''throttled'', Status ''RUNNING'' None],
           stopReply = None, resultsReply = Inr ([], None)\<rparr> ''SELECT 1'')) = 0"
proof -
  let ?slow = "\<lparr>startReply = Inr ''q-1'', statusReplies = [Status ''QUEUED'' None, Status ''RUNNING'' None],
          stopReply = Some ''AccessDenied'', resultsReply = Inr ([], None)\<rparr>"
  let ?broken = "\<lparr>startReply = Inr ''q-1'',
           statusReplies = [Status ''RUNNING'' None, StatusError ''throttled'', Status ''RUNNING'' None],
           stopReply = None, resultsReply = Inr ([], None)\<rparr>"
  have d: "\<not> denied id ''SELECT 1''"
    by code_simp
  have o: "\<not> observesTerminal [Status ''QUEUED'' None, Status ''RUNNING'' None]"
    by code_simp
  have f: "\<not> fetchFails [Status ''QUEUED'' None, Status ''RUNNING'' None]"
    by code_simp
  have o': "\<not> observesTerminal [Status ''RUNNING'' None, StatusError ''throttled'', Status ''RUNNING'' None]"
    by code_simp
  have f': "\<not> fetchFails [Status ''RUNNING'' None]"
    by code_simp
  have 1: "fst (runAthenaQuery id cfg0 ?slow ''SELECT 1'') =
     (''q-1'', [], ''Query timed out (45 seconds elapsed). Execution aborted.'',
      getQueryRegion (preprocessSqlQuery ''SELECT 1'')) \<and>
   cancellations (snd (runAthenaQuery id cfg0 ?slow ''SELECT 1'')) = 1 \<and>
   Log ''Failed to cancel query: AccessDenied'' \<in> set (snd (runAthenaQuery id cfg0 ?slow ''SELECT 1''))"
    using d o f
      runAthenaQuery_deadline [where up = id and query = "''SELECT 1''" and replies = ?slow
        and qid = "''q-1''" and cfg = cfg0]
    by simp
  have 2: "fst (runAthenaQuery id cfg0 ?broken ''SELECT 1'') =
     (''q-1'', [], ''Failed to get query status: throttled'',
      getQueryRegion (preprocessSqlQuery ''SELECT 1'')) \<and>
   cancellations (snd (runAthenaQuery id cfg0 ?broken ''SELECT 1'')) = 0"
    using d o' f'
      runAthenaQuery_deadline [where up = id and query = "''SELECT 1''" and replies = ?broken
        and qid = "''q-1''" and cfg = cfg0, THEN conjunct2, THEN conjunct2, rule_format,
        of "[Status ''RUNNING'' None]" "''throttled''" "[Status ''RUNNING'' None]"]
    by (simp add: cancellations_def)
  show ?thesis using d o f o' f' 1 2 by simp
qed

section \<open>Properties of the caches\<close>

lemma deleteOlder_lookup:
  "fmlookup (deleteOlder now d m) k =
     (case fmlookup m k of Some t \<Rightarrow> if d < now - t then None else Some t | None \<Rightarrow> None)"
  by (auto simp: deleteOlder_def split: option.splits)

lemma deleteOlder_young:
  assumes "\<And>k t. fmlookup m k = Some t \<Longrightarrow> now - t \<le> d"
  shows "deleteOlder now d m = m"
proof (rule fmap_ext)
  fix k
  show "fmlookup (deleteOlder now d m) k = fmlookup m k"
    using assms [of k] by (auto simp: deleteOlder_lookup split: option.splits)
qed

lemma queryGuard_fresh:
  assumes "\<not> recently (sinceNow clock) (seconds 5) queries key"
    and "sweepNow clock - recordNow clock \<le> minutes 10"
  shows "\<exists>queries'. queryGuard clock key queries = Some queries' \<and>
           (fmlookup queries' key = Some (recordNow clock) \<or>
            fmlookup queries' key = Some (clearNow clock))"
  using assms by (simp add: queryGuard_def Let_def deleteOlder_lookup)

lemma queryGuard_clear:
  assumes "\<not> recently (sinceNow clock) (seconds 5) queries key"
    and "200 < len (fmupd key (recordNow clock) queries)"
    and "\<forall>k t. fmlookup (fmupd key (recordNow clock) queries) k = Some t \<longrightarrow>
                sweepNow clock - t \<le> minutes 10"
  shows "queryGuard clock key queries = Some (fmupd key (clearNow clock) fmempty)"
proof -
  have "deleteOlder (sweepNow clock) (minutes 10) (fmupd key (recordNow clock) queries) =
          fmupd key (recordNow clock) queries"
    using assms(3) by (intro deleteOlder_young) blast
  with assms(1,2) show ?thesis
    by (simp add: queryGuard_def Let_def)
qed

lemma len_fill: "len (fill n v) = n"
proof -
  have "inj_on (\<lambda>i. replicate (Suc i) CHR ''k'') (set [0..<n])"
    by (rule inj_onI) (metis length_replicate nat.inject)
  then have d: "distinct (map (\<lambda>i. replicate (Suc i) CHR ''k'') [0..<n])"
    by (simp add: distinct_map)
  have "len (fill n v) = card (set (map (\<lambda>i. replicate (Suc i) CHR ''k'') [0..<n]))"
    by (simp add: len_def fill_def fcard.rep_eq fset_of_list.rep_eq comp_def)
  also have "\<dots> = n"
    using d distinct_card by fastforce
  finally show ?thesis .
qed

lemma fill_lookup: "fmlookup (fill n v) k = Some t \<Longrightarrow> t = v \<and> set k \<subseteq> {CHR ''k''}"
  by (auto simp: fill_def dest!: fmap_of_list_SomeD)

lemma len_fmupd_fill:
  assumes "\<not> set k \<subseteq> {CHR ''k''}"
  shows "len (fmupd k v (fill n v')) = Suc n"
proof -
  have "k |\<notin>| fmdom (fill n v')"
    using assms fill_lookup [of n v' k] by (metis fmdom_notD fmlookup_dom_iff option.exhaust)
  then show ?thesis
    using len_fill [of n v'] by (simp add: len_def fcard_finsert_disjoint)
qed

text \<open>
  C4.  The guard on recent queries, whose key is the channel, a colon and the cleaned text of
  the question.  A call with a key that is not in the cache, or is there with an age of five
  seconds or more, goes on and leaves the key in the cache with the time of the call; a call
  with a key recorded less than five seconds ago is stopped as a duplicate; and when the
  insertion takes the cache beyond 200 entries, none of them older than ten minutes, the
  cache is cleared and holds the key of the call alone.  The guard on event ids clears its
  cache in the same way beyond 100 entries.  (The readings of the clock within one call are
  taken to lie within ten minutes.)

  What the guard returns is given in full.  Up to 200 entries the cache is the old one with
  the key of the call at its time, so that every other key keeps its entry: a call with one
  key does not let through a repeat of another key within its five seconds, and a later
  call with the same key is stopped within five seconds of the recorded time and goes on
  from five seconds.  Beyond 200 entries the entries older than ten minutes are deleted, and
  the cache is cleared when more than 150 are left.  The guard on event ids stops an event
  whose key is in its cache and, up to 100 entries, adds the key to the cache.
\<close>

theorem dedup_guards:
  "((fmlookup queries key = None \<or>
     (\<exists>t. fmlookup queries key = Some t \<and> seconds 5 \<le> sinceNow clock - t)) \<and>
    sweepNow clock - recordNow clock \<le> minutes 10 \<longrightarrow>
      (\<exists>queries'. queryGuard clock key queries = Some queries' \<and>
         (fmlookup queries' key = Some (recordNow clock) \<or>
          fmlookup queries' key = Some (clearNow clock)))) \<and>
   ((\<exists>t. fmlookup queries key = Some t \<and> sinceNow clock - t < seconds 5) \<longrightarrow>
      queryGuard clock key queries = None) \<and>
   (\<not> recently (sinceNow clock) (seconds 5) queries key \<and>
    200 < len (fmupd key (recordNow clock) queries) \<and>
    (\<forall>k t. fmlookup (fmupd key (recordNow clock) queries) k = Some t \<longrightarrow>
              sweepNow clock - t \<le> minutes 10) \<longrightarrow>
      queryGuard clock key queries = Some (fmupd key (clearNow clock) fmempty)) \<and>
   (EventID w \<noteq> [] \<and> fmlookup events (eventKey w) = None \<and>
    100 < len (fmupd (eventKey w) True events) \<longrightarrow>
      eventGuard w events = Some (fmupd (eventKey w) True fmempty)) \<and>
   (\<not> recently (sinceNow clock) (seconds 5) queries key \<and>
    len (fmupd key (recordNow clock) queries) \<le> 200 \<longrightarrow>
      queryGuard clock key queries = Some (fmupd key (recordNow clock) queries)) \<and>
   (\<not> recently (sinceNow clock) (seconds 5) queries key \<and>
    200 < len (fmupd key (recordNow clock) queries) \<longrightarrow>
      queryGuard clock key queries =
        Some (if 150 < len (deleteOlder (sweepNow clock) (minutes 10)
                              (fmupd key (recordNow clock) queries))
              then fmupd key (clearNow clock) fmempty
              else deleteOlder (sweepNow clock) (minutes 10)
                     (fmupd key (recordNow clock) queries))) \<and>
   (\<not> recently (sinceNow clock) (seconds 5) queries key \<and>
    len (fmupd key (recordNow clock) queries) \<le> 200 \<and>
    other \<noteq> key \<and> fmlookup queries other = Some t \<and> sinceNow later - t < seconds 5 \<longrightarrow>
      (\<exists>queries'. queryGuard clock key queries = Some queries' \<and>
         fmlookup queries' other = Some t \<and> queryGuard later other queries' = None)) \<and>
   (\<not> recently (sinceNow clock) (seconds 5) queries key \<and>
    len (fmupd key (recordNow clock) queries) \<le> 200 \<longrightarrow>
      (\<exists>queries'. queryGuard clock key queries = Some queries' \<and>
         (sinceNow later - recordNow clock < seconds 5 \<longrightarrow>
            queryGuard later key queries' = None) \<and>
         (seconds 5 \<le> sinceNow later - recordNow clock \<longrightarrow>
            queryGuard later key queries' \<noteq> None))) \<and>
   (EventID w \<noteq> [] \<and> fmlookup events (eventKey w) \<noteq> None \<longrightarrow> eventGuard w events = None) \<and>
   (EventID w \<noteq> [] \<and> fmlookup events (eventKey w) = None \<and>
    len (fmupd (eventKey w) True events) \<le> 100 \<longrightarrow>
      eventGuard w events = Some (fmupd (eventKey w) True events))"
proof -
  have 1: "(fmlookup queries key = None \<or>
     (\<exists>t. fmlookup queries key = Some t \<and> seconds 5 \<le> sinceNow clock - t)) \<and>
    sweepNow clock - recordNow clock \<le> minutes 10 \<longrightarrow>
      (\<exists>queries'. queryGuard clock key queries = Some queries' \<and>
         (fmlookup queries' key = Some (recordNow clock) \<or>
          fmlookup queries' key = Some (clearNow clock)))"
  proof
    assume a: "(fmlookup queries key = None \<or>
       (\<exists>t. fmlookup queries key = Some t \<and> seconds 5 \<le> sinceNow clock - t)) \<and>
      sweepNow clock - recordNow clock \<le> minutes 10"
    then have "\<not> recently (sinceNow clock) (seconds 5) queries key"
      by (auto simp: recently_def)
    with a show "\<exists>queries'. queryGuard clock key queries = Some queries' \<and>
         (fmlookup queries' key = Some (recordNow clock) \<or>
          fmlookup queries' key = Some (clearNow clock))"
      by (intro queryGuard_fresh) simp_all
  qed
  have 2: "(\<exists>t. fmlookup queries key = Some t \<and> sinceNow clock - t < seconds 5) \<longrightarrow>
      queryGuard clock key queries = None"
    by (auto simp: queryGuard_def recently_def)
  have 3: "\<not> recently (sinceNow clock) (seconds 5) queries key \<and>
    200 < len (fmupd key (recordNow clock) queries) \<and>
    (\<forall>k t. fmlookup (fmupd key (recordNow clock) queries) k = Some t \<longrightarrow>
              sweepNow clock - t \<le> minutes 10) \<longrightarrow>
      queryGuard clock key queries = Some (fmupd key (clearNow clock) fmempty)"
  proof
    assume "\<not> recently (sinceNow clock) (seconds 5) queries key \<and>
      200 < len (fmupd key (recordNow clock) queries) \<and>
      (\<forall>k t. fmlookup (fmupd key (recordNow clock) queries) k = Some t \<longrightarrow>
                sweepNow clock - t \<le> minutes 10)"
    then show "queryGuard clock key queries = Some (fmupd key (clearNow clock) fmempty)"
      by (intro queryGuard_clear) simp_all
  qed
  have 4: "EventID w \<noteq> [] \<and> fmlookup events (eventKey w) = None \<and>
    100 < len (fmupd (eventKey w) True events) \<longrightarrow>
      eventGuard w events = Some (fmupd (eventKey w) True fmempty)"
    by (simp add: eventGuard_def Let_def)
  have 5: "\<not> recently (sinceNow clock) (seconds 5) queries key \<and>
    len (fmupd key (recordNow clock) queries) \<le> 200 \<longrightarrow>
      queryGuard clock key queries = Some (fmupd key (recordNow clock) queries)"
    by (simp add: queryGuard_def Let_def)
  have 6: "\<not> recently (sinceNow clock) (seconds 5) queries key \<and>
    200 < len (fmupd key (recordNow clock) queries) \<longrightarrow>
      queryGuard clock key queries =
        Some (if 150 < len (deleteOlder (sweepNow clock) (minutes 10)
                              (fmupd key (recordNow clock) queries))
              then fmupd key (clearNow clock) fmempty
              else deleteOlder (sweepNow clock) (minutes 10)
                     (fmupd key (recordNow clock) queries))"
    by (simp add: queryGuard_def Let_def)
  have 7: "\<not> recently (sinceNow clock) (seconds 5) queries key \<and>
    len (fmupd key (recordNow clock) queries) \<le> 200 \<and>
    other \<noteq> key \<and> fmlookup queries other = Some t \<and> sinceNow later - t < seconds 5 \<longrightarrow>
      (\<exists>queries'. queryGuard clock key queries = Some queries' \<and>
         fmlookup queries' other = Some t \<and> queryGuard later other queries' = None)"
    by (auto simp: queryGuard_def Let_def recently_def)
  have 8: "\<not> recently (sinceNow clock) (seconds 5) queries key \<and>
    len (fmupd key (recordNow clock) queries) \<le> 200 \<longrightarrow>
      (\<exists>queries'. queryGuard clock key queries = Some queries' \<and>
         (sinceNow later - recordNow clock < seconds 5 \<longrightarrow>
            queryGuard later key queries' = None) \<and>
         (seconds 5 \<le> sinceNow later - recordNow clock \<longrightarrow>
            queryGuard later key queries' \<noteq> None))"
    by (simp add: queryGuard_def Let_def recently_def)
  have 9: "EventID w \<noteq> [] \<and> fmlookup events (eventKey w) \<noteq> None \<longrightarrow> eventGuard w events = None"
    by (simp add: eventGuard_def)
  have 10: "EventID w \<noteq> [] \<and> fmlookup events (eventKey w) = None \<and>
    len (fmupd (eventKey w) True events) \<le> 100 \<longrightarrow>
      eventGuard w events = Some (fmupd (eventKey w) True events)"
    by (simp add: eventGuard_def Let_def)
  show ?thesis
    by (intro conjI 1 2 3 4 5 6 7 8 9 10)
qed


theorem dedup_guards_witness:
  "(\<exists>queries'. queryGuard (reading 0) ''C1:top ips'' fmempty = Some queries' \<and>
       fmlookup queries' ''C1:top ips'' = Some 0) \<and>
   queryGuard (reading (seconds 1)) ''C1:top ips'' (fmupd ''C1:top ips'' 0 fmempty) = None \<and>
   (\<exists>queries'. queryGuard (reading (seconds 6)) ''C1:top ips'' (fmupd ''C1:top ips'' 0 fmempty) = Some queries' \<and>
       fmlookup queries' ''C1:top ips'' = Some (seconds 6)) \<and>
   200 < len (fmupd ''C1:top ips'' (0::int) (fill 200 0)) \<and>
   queryGuard (reading 0) ''C1:top ips'' (fill 200 0) = Some (fmupd ''C1:top ips'' 0 fmempty) \<and>
   100 < len (fmupd ''E1_top ips_C1'' True (fill 100 True)) \<and>
   eventGuard \<lparr>Type = ''event_callback'', EventID = ''E1'', EventType = ''message'',
               EventText = ''top ips'', EventUser = ''U1'', EventChannel = ''C1''\<rparr> (fill 100 True) =
     Some (fmupd ''E1_top ips_C1'' True fmempty) \<and>
   len (fmupd ''C1:top uris'' (seconds 1) (fmupd ''C1:top ips'' 0 fmempty)) \<le> 200 \<and>
   (\<exists>queries'. queryGuard (reading (seconds 1)) ''C1:top uris'' (fmupd ''C1:top ips'' 0 fmempty) =
        Some queries' \<and>
      fmlookup queries' ''C1:top ips'' = Some 0 \<and>
      queryGuard (reading (seconds 2)) ''C1:top ips'' queries' = None)"
proof -
  let ?k = "''C1:top ips''"
  let ?k' = "''C1:top uris''"
  let ?w = "\<lparr>Type = ''event_callback'', EventID = ''E1'', EventType = ''message'',
               EventText = ''top ips'', EventUser = ''U1'', EventChannel = ''C1''\<rparr>"
  have ten: "sweepNow (reading t) - recordNow (reading t) \<le> minutes 10" for t
    by (simp add: reading_def minutes_def seconds_def)
  have w1: "\<exists>queries'. queryGuard (reading 0) ?k fmempty = Some queries' \<and>
       fmlookup queries' ?k = Some 0"
    using dedup_guards [where queries = fmempty and key = ?k and clock = "reading 0"] ten [of 0]
    by (simp add: reading_def)
  have w2: "queryGuard (reading (seconds 1)) ?k (fmupd ?k 0 fmempty) = None"
    using dedup_guards [where queries = "fmupd ?k 0 fmempty" and key = ?k
        and clock = "reading (seconds 1)"]
    by (simp add: reading_def seconds_def)
  have w3: "\<exists>queries'. queryGuard (reading (seconds 6)) ?k (fmupd ?k 0 fmempty) = Some queries' \<and>
       fmlookup queries' ?k = Some (seconds 6)"
    using dedup_guards [where queries = "fmupd ?k 0 fmempty" and key = ?k
        and clock = "reading (seconds 6)"] ten [of "seconds 6"]
    by (simp add: reading_def seconds_def)
  have nk: "\<not> set ?k \<subseteq> {CHR ''k''}" by simp
  have l4: "200 < len (fmupd ?k 0 (fill 200 (0::int)))"
    using len_fmupd_fill [OF nk, of 0 200 "0::int"] by simp
  have fresh: "\<not> recently (sinceNow (reading 0)) (seconds 5) (fill 200 0) ?k"
    using fill_lookup [of 200 "0::int" ?k] by (auto simp: recently_def split: option.splits)
  have young: "\<forall>k t. fmlookup (fmupd ?k (recordNow (reading 0)) (fill 200 0)) k = Some t \<longrightarrow>
                 sweepNow (reading 0) - t \<le> minutes 10"
    by (auto simp: reading_def minutes_def seconds_def split: if_splits dest!: fill_lookup)
  have w4: "queryGuard (reading 0) ?k (fill 200 0) = Some (fmupd ?k 0 fmempty)"
    using dedup_guards [where queries = "fill 200 0" and key = ?k and clock = "reading 0"]
      l4 fresh young by (simp add: reading_def)
  have ek: "eventKey ?w = ''E1_top ips_C1''" by (simp add: eventKey_def)
  have ne: "\<not> set ''E1_top ips_C1'' \<subseteq> {CHR ''k''}" by simp
  have l5: "100 < len (fmupd ''E1_top ips_C1'' True (fill 100 True))"
    using len_fmupd_fill [OF ne, of True 100 True] by simp
  have absent: "fmlookup (fill 100 True) ''E1_top ips_C1'' = None"
    using fill_lookup [of 100 True "''E1_top ips_C1''"] by (cases "fmlookup (fill 100 True) ''E1_top ips_C1''") auto
  have w5: "eventGuard ?w (fill 100 True) = Some (fmupd ''E1_top ips_C1'' True fmempty)"
    using dedup_guards [where w = ?w and events = "fill 100 True"] l5 absent ek by simp
  have l6: "len (fmupd ?k' (seconds 1) (fmupd ?k 0 fmempty)) \<le> 200"
    by (simp add: len_def fcard_finsert_if fcard_fempty)
  have other: "\<not> recently (sinceNow (reading (seconds 1))) (seconds 5) (fmupd ?k 0 fmempty) ?k'"
    by (simp add: recently_def)
  note two = dedup_guards [where queries = "fmupd ?k 0 fmempty" and key = ?k'
        and clock = "reading (seconds 1)" and other = ?k and t = 0
        and later = "reading (seconds 2)",
        THEN conjunct2, THEN conjunct2, THEN conjunct2, THEN conjunct2, THEN conjunct2,
        THEN conjunct2, THEN conjunct1]
  have w6: "\<exists>queries'. queryGuard (reading (seconds 1)) ?k' (fmupd ?k 0 fmempty) = Some queries' \<and>
      fmlookup queries' ?k = Some 0 \<and>
      queryGuard (reading (seconds 2)) ?k queries' = None"
  proof (rule two [THEN mp])
    show "\<not> recently (sinceNow (reading (seconds 1))) (seconds 5) (fmupd ?k 0 fmempty) ?k' \<and>
      len (fmupd ?k' (recordNow (reading (seconds 1))) (fmupd ?k 0 fmempty)) \<le> 200 \<and>
      ?k \<noteq> ?k' \<and> fmlookup (fmupd ?k 0 fmempty) ?k = Some 0 \<and>
      sinceNow (reading (seconds 2)) - 0 < seconds 5"
      using l6 other by (simp add: reading_def seconds_def)
  qed
  show ?thesis by (intro conjI w1 w2 w3 l4 w4 l5 w5 l6 w6)
qed

text \<open>
  C9.  \<open>postToSlack\<close> records the key, the channel and the signature of the message, before
  it tries to send: after a call that was not itself suppressed, the key is in the cache
  with the time of the call, whatever became of the send (\<open>cfg\<close> and \<open>post\<close> are arbitrary: the
  token may be empty, Slack may answer with an error), and a later call for the same channel
  and signature less than three minutes after returns nil, leaves the cache as it is and
  sends nothing.  (The readings of the clock within one call are taken to lie within ten
  minutes.)
\<close>

theorem postToSlack_records_before_send:
  assumes "\<not> recently (sinceNow clock) (minutes 3) sent (channel @ '':'' @ contentSignature msg)"
    and "sweepNow clock - recordNow clock \<le> minutes 10"
    and "contentSignature msg' = contentSignature msg"
    and "sinceNow clock' - recordNow clock < minutes 3"
  shows "fmlookup (fst (snd (postToSlack cfg post clock channel msg sent)))
           (channel @ '':'' @ contentSignature msg) = Some (recordNow clock) \<and>
         postToSlack cfg' post' clock' channel msg'
           (fst (snd (postToSlack cfg post clock channel msg sent))) =
           (None, fst (snd (postToSlack cfg post clock channel msg sent)), [])"
proof -
  let ?key = "channel @ '':'' @ contentSignature msg"
  let ?sent' = "fst (snd (postToSlack cfg post clock channel msg sent))"
  have rec: "fmlookup ?sent' ?key = Some (recordNow clock)"
    using assms(1,2) by (simp add: postToSlack_def Let_def deleteOlder_lookup)
  then have "recently (sinceNow clock') (minutes 3) ?sent' ?key"
    using assms(4) by (simp add: recently_def)
  then have "postToSlack cfg' post' clock' channel msg' ?sent' = (None, ?sent', [])"
    using assms(3) by (simp add: postToSlack_def Let_def)
  with rec show ?thesis by simp
qed


theorem postToSlack_records_before_send_witness:
  "\<not> recently (sinceNow (reading 0)) (minutes 3) fmempty (''C1'' @ '':'' @ contentSignature ''hello'') \<and>
   sweepNow (reading 0) - recordNow (reading 0) \<le> minutes 10 \<and>
   sinceNow (reading (seconds 60)) - recordNow (reading 0) < minutes 3 \<and>
   fst (postToSlack (cfg0\<lparr>slackToken := []\<rparr>) (\<lambda>c m. None) (reading 0) ''C1'' ''hello'' fmempty) =
     Some ''Slack token is empty. Unable to send message to Slack.'' \<and>
   postToSlack cfg0 (\<lambda>c m. None) (reading (seconds 60)) ''C1'' ''hello''
     (fst (snd (postToSlack (cfg0\<lparr>slackToken := []\<rparr>) (\<lambda>c m. None) (reading 0) ''C1'' ''hello'' fmempty))) =
     (None, fst (snd (postToSlack (cfg0\<lparr>slackToken := []\<rparr>) (\<lambda>c m. None) (reading 0) ''C1'' ''hello'' fmempty)), [])"
proof -
  have a: "\<not> recently (sinceNow (reading 0)) (minutes 3) fmempty (''C1'' @ '':'' @ contentSignature ''hello'')"
    by (simp add: recently_def)
  have b: "sweepNow (reading 0) - recordNow (reading 0) \<le> minutes 10"
    by (simp add: reading_def minutes_def seconds_def)
  have c: "sinceNow (reading (seconds 60)) - recordNow (reading 0) < minutes 3"
    by (simp add: reading_def minutes_def seconds_def)
  have d: "fst (postToSlack (cfg0\<lparr>slackToken := []\<rparr>) (\<lambda>c m. None) (reading 0) ''C1'' ''hello'' fmempty) =
             Some ''Slack token is empty. Unable to send message to Slack.''"
    by (simp add: postToSlack_def recently_def Let_def)
  show ?thesis
    using a b c d
      postToSlack_records_before_send [OF a b refl c, of "cfg0\<lparr>slackToken := []\<rparr>" "\<lambda>c m. None" cfg0 "\<lambda>c m. None"]
    by simp
qed


text \<open>
  C10, as the claim states it, fails: an event without event id passes the guard on event
  ids, but its redelivery one second later is stopped by the guard on recent queries, and
  nothing is run or sent for it.
\<close>

theorem empty_event_id_counterexample:
  "EventID mention = [] \<and>
   (case handler cfg0 (world0 ''SELECT 1'' [Status ''FAILED'' None] 0) delivery noCaches of
      Some (r1, st1, e1) \<Rightarrow>
        map_option (\<lambda>(r, s, e). (r, e))
          (handler cfg0 (world0 ''SELECT 1'' [Status ''FAILED'' None] (seconds 1)) delivery st1) =
        Some (Response 200 ''duplicate query ignored'', [])
    | None \<Rightarrow> False)"
  by code_simp

text \<open>
  C10, amended.  For an event whose \<open>event_id\<close> is empty the guard on event ids does
  nothing: it lets the event pass and leaves the cache of processed events as it was.  So
  the handler never answers such an event with \<open>duplicate event\<close>, and the cache of
  processed events is the same after the call.
\<close>

theorem eventGuard_empty_id:
  assumes "payload req = Some b" and "wrapper b = Some w" and "EventID w = []"
  shows "eventGuard w (processedEvents st) = Some (processedEvents st) \<and>
         (\<forall>resp st' evs. handler cfg env req st = Some (resp, st', evs) \<longrightarrow>
            resp \<noteq> Response 200 ''duplicate event'' \<and>
            processedEvents st' = processedEvents st)"
proof -
  have g: "eventGuard w (processedEvents st) = Some (processedEvents st)"
    using assms(3) by (simp add: eventGuard_def)
  show ?thesis
    using assms(1,2) g
    by (auto simp: handler_def Let_def split: if_splits option.splits prod.splits)
qed

theorem eventGuard_empty_id_witness:
  "EventID mention = [] \<and>
   eventGuard mention (processedEvents noCaches) = Some (processedEvents noCaches) \<and>
   (\<exists>resp st' evs.
      handler cfg0 (world0 ''SELECT 1'' [Status ''FAILED'' None] 0) delivery noCaches =
        Some (resp, st', evs) \<and>
      resp \<noteq> Response 200 ''duplicate event'' \<and>
      processedEvents st' = processedEvents noCaches)"
proof -
  have p: "payload delivery = Some \<lparr>challenge = None, wrapper = Some mention\<rparr>"
    by (simp add: delivery_def)
  have e: "EventID mention = []"
    by (simp add: mention_def)
  have "map_option fst (handler cfg0 (world0 ''SELECT 1'' [Status ''FAILED'' None] 0) delivery noCaches) =
          Some (Response 200 ''error reported to slack'')"
    by code_simp
  then obtain resp st' evs where
    h: "handler cfg0 (world0 ''SELECT 1'' [Status ''FAILED'' None] 0) delivery noCaches = Some (resp, st', evs)"
    by auto
  show ?thesis
    using e h eventGuard_empty_id [OF p _ e, where st = noCaches and cfg = cfg0
        and env = "world0 ''SELECT 1'' [Status ''FAILED'' None] 0"]
    by simp
qed


section \<open>Properties of the result table\<close>

lemma RuneCount_le: "RuneCountInString s \<le> length s"
proof (induction s rule: RuneCountInString.induct)
  case 1
  then show ?case by simp
next
  case (2 c cs)
  have "0 < runeWidth (c # cs)" by (rule runeWidth_pos)
  then have "length (drop (runeWidth (c # cs)) (c # cs)) < length (c # cs)"
    by simp
  with 2 show ?case by simp
qed

lemma runeWidth_le: "s \<noteq> [] \<Longrightarrow> runeWidth s \<le> length s"
  by (auto simp: runeWidth_def split: list.splits)

lemma inRange_space [simp]: "\<not> inRange 0x80 hi CHR '' ''" "\<not> inRange 0x90 hi CHR '' ''"
  "\<not> inRange 0xA0 hi CHR '' ''" "\<not> inRange 0xC2 hi CHR '' ''" "\<not> inRange 0xE0 hi CHR '' ''" "\<not> inRange 0xF0 hi CHR '' ''"
  by (simp_all add: inRange_def)

lemma runeWidth_spaces: "s \<noteq> [] \<Longrightarrow> runeWidth (s @ replicate n CHR '' '') = runeWidth s"
  by (cases n) (auto simp: runeWidth_def split: list.splits)

lemma RuneCount_spaces0: "RuneCountInString (replicate n CHR '' '') = n"
  by (induction n) (simp_all add: runeWidth_def)

lemma RuneCount_spaces:
  "RuneCountInString (s @ replicate n CHR '' '') = RuneCountInString s + n"
proof (induction s rule: RuneCountInString.induct)
  case 1
  then show ?case by (simp add: RuneCount_spaces0)
next
  case (2 c cs)
  have w: "runeWidth ((c # cs) @ replicate n CHR '' '') = runeWidth (c # cs)"
    by (rule runeWidth_spaces) simp
  have l: "runeWidth (c # cs) \<le> length (c # cs)"
    by (rule runeWidth_le) simp
  have d: "drop (runeWidth (c # cs)) ((c # cs) @ replicate n CHR '' '') =
             drop (runeWidth (c # cs)) (c # cs) @ replicate n CHR '' ''"
    using l by (simp only: drop_append) simp
  have "RuneCountInString ((c # cs) @ replicate n CHR '' '') =
          Suc (RuneCountInString (drop (runeWidth (c # cs)) ((c # cs) @ replicate n CHR '' '')))"
    using w by simp
  then have "RuneCountInString ((c # cs) @ replicate n CHR '' '') =
          Suc (RuneCountInString (drop (runeWidth (c # cs)) (c # cs) @ replicate n CHR '' ''))"
    by (simp only: d)
  with 2 show ?case by simp
qed

lemma padRight_width:
  "RuneCountInString v \<le> w \<Longrightarrow> RuneCountInString (padRight w v) = w"
  by (simp add: padRight_def RuneCount_spaces)


lemma widen_max: "widen idx r ws = map (\<lambda>(i, w). max w (need r i)) (zip idx ws)"
  by (auto simp: widen_def need_def max_def split: option.splits)

lemma widths_length:
  "length ws = length idx \<Longrightarrow> length (foldl (\<lambda>ws r. widen idx r ws) ws shown) = length idx"
  by (induction shown arbitrary: ws) (simp_all add: widen_max)

lemma widths_mono:
  "length ws = length idx \<Longrightarrow> k < length idx \<Longrightarrow>
   ws ! k \<le> foldl (\<lambda>ws r. widen idx r ws) ws shown ! k"
proof (induction shown arbitrary: ws)
  case Nil
  then show ?case by simp
next
  case (Cons r rs)
  have "ws ! k \<le> widen idx r ws ! k"
    using Cons.prems by (simp add: widen_max)
  also have "\<dots> \<le> foldl (\<lambda>ws r. widen idx r ws) (widen idx r ws) rs ! k"
    using Cons.prems by (intro Cons.IH) (simp_all add: widen_max)
  finally show ?case by simp
qed

lemma widths_cover:
  "length ws = length idx \<Longrightarrow> k < length idx \<Longrightarrow> r \<in> set shown \<Longrightarrow>
   need r (idx ! k) \<le> foldl (\<lambda>ws r. widen idx r ws) ws shown ! k"
proof (induction shown arbitrary: ws)
  case Nil
  then show ?case by simp
next
  case (Cons r' rs)
  have len: "length (widen idx r' ws) = length idx"
    using Cons.prems by (simp add: widen_max)
  show ?case
  proof (cases "r = r'")
    case True
    have "need r (idx ! k) \<le> widen idx r' ws ! k"
      using Cons.prems True by (simp add: widen_max)
    also have "\<dots> \<le> foldl (\<lambda>ws r. widen idx r ws) (widen idx r' ws) rs ! k"
      using len Cons.prems by (intro widths_mono) simp_all
    finally show ?thesis by simp
  next
    case False
    then have "r \<in> set rs" using Cons.prems by simp
    then show ?thesis using Cons.IH [OF len Cons.prems(2)] by simp
  qed
qed

lemma colWidthsOf_length: "length (colWidthsOf cols shown) = length cols"
  by (simp add: colWidthsOf_def widths_length)

lemma colWidthsOf_header:
  assumes "(h, w) \<in> set (zip (map snd cols) (colWidthsOf cols shown))"
  shows "length h \<le> w"
proof -
  from assms obtain k where k: "k < length cols" "h = snd (cols ! k)"
    "w = colWidthsOf cols shown ! k"
    by (auto simp: set_zip colWidthsOf_length)
  have "map (\<lambda>(i, h). length h) cols ! k \<le> colWidthsOf cols shown ! k"
    unfolding colWidthsOf_def using k(1) by (intro widths_mono) simp_all
  then show ?thesis using k by (simp add: case_prod_beta)
qed

lemma colWidthsOf_cell:
  assumes "(i, w) \<in> set (zip (map fst cols) (colWidthsOf cols shown))"
    and "r \<in> set shown" and "i < length r" and "r ! i = Some v"
  shows "length v \<le> w"
proof -
  from assms(1) obtain k where k: "k < length cols" "i = map fst cols ! k"
    "w = colWidthsOf cols shown ! k"
    by (auto simp: set_zip colWidthsOf_length)
  have "need r (map fst cols ! k) \<le> colWidthsOf cols shown ! k"
    unfolding colWidthsOf_def using k(1) assms(2) by (intro widths_cover) simp_all
  then show ?thesis using k assms(3,4) by (simp add: need_def)
qed

lemma padRight_fixed:
  assumes "length v \<le> w"
  shows "RuneCountInString (padRight (w + 2) v) = w + 2 \<and>
         (\<exists>n\<ge>2. padRight (w + 2) v = v @ replicate n CHR '' '')"
proof -
  have "RuneCountInString v \<le> w"
    using assms RuneCount_le [of v] by simp
  then show ?thesis
    by (auto simp: padRight_def RuneCount_spaces intro!: exI [of _ "w + 2 - RuneCountInString v"])
qed

text \<open>
  C5, as the claim states it, fails: of a header and 25 data rows, \<open>r01\<close> to \<open>r25\<close>, the
  table shows 19 data rows, \<open>r01\<close> to \<open>r19\<close>, and not \<open>r20\<close>.
\<close>

theorem formatAthenaResults_25_rows_counterexample:
  "length rows25 = 26 \<and>
   formatAthenaResults rows25 =
     ''```'' @ [CHR 0x0A] @ ''n    '' @ [CHR 0x0A] @ ''-----'' @ [CHR 0x0A] @
     concat (map (\<lambda>i. ''r'' @ pad2 (int i) @ ''  '' @ [CHR 0x0A]) [1..<20]) @
     ''...(Results limited to 20 rows)'' @ [CHR 0x0A] @ ''```'' @ [CHR 0x0A] \<and>
   \<not> Contains (formatAthenaResults rows25) ''r20''"
  by code_simp

text \<open>
  C5, amended.  Of a header row followed by 25 data rows, \<open>formatAthenaResults\<close> renders the
  header, a line of dashes and the first 19 data rows (20 rows with the header), then the
  note that the results are limited, all between two code fences.  The header labels and
  the values of the rows shown are left-justified in columns of fixed width: each is
  followed by at least two spaces and fills the width of its column plus two.
\<close>

theorem formatAthenaResults_25_rows:
  assumes "length rows = 26" and "selectColumns (rows ! 0) \<noteq> []"
  shows "formatAthenaResults rows =
           ''```'' @ [CHR 0x0A] @
           headerLine (map snd (selectColumns (rows ! 0)))
             (colWidthsOf (selectColumns (rows ! 0)) (take 19 (drop 1 rows))) @
           separatorLine (colWidthsOf (selectColumns (rows ! 0)) (take 19 (drop 1 rows))) @
           concat (map (dataLine (map fst (selectColumns (rows ! 0)))
                          (colWidthsOf (selectColumns (rows ! 0)) (take 19 (drop 1 rows))))
                       (take 19 (drop 1 rows))) @
           ''...(Results limited to 20 rows)'' @ [CHR 0x0A] @ ''```'' @ [CHR 0x0A] \<and>
         length (take 19 (drop 1 rows)) = 19 \<and>
         (\<forall>(h, w) \<in> set (zip (map snd (selectColumns (rows ! 0)))
                            (colWidthsOf (selectColumns (rows ! 0)) (take 19 (drop 1 rows)))).
            RuneCountInString (padRight (w + 2) h) = w + 2 \<and>
            (\<exists>n\<ge>2. padRight (w + 2) h = h @ replicate n CHR '' '')) \<and>
         (\<forall>r \<in> set (take 19 (drop 1 rows)).
          \<forall>(i, w) \<in> set (zip (map fst (selectColumns (rows ! 0)))
                            (colWidthsOf (selectColumns (rows ! 0)) (take 19 (drop 1 rows)))).
          \<forall>v. i < length r \<and> r ! i = Some v \<longrightarrow>
            cell r i = v \<and>
            RuneCountInString (padRight (w + 2) v) = w + 2 \<and>
            (\<exists>n\<ge>2. padRight (w + 2) v = v @ replicate n CHR '' ''))"
proof (intro conjI)
  show "formatAthenaResults rows =
           ''```'' @ [CHR 0x0A] @
           headerLine (map snd (selectColumns (rows ! 0)))
             (colWidthsOf (selectColumns (rows ! 0)) (take 19 (drop 1 rows))) @
           separatorLine (colWidthsOf (selectColumns (rows ! 0)) (take 19 (drop 1 rows))) @
           concat (map (dataLine (map fst (selectColumns (rows ! 0)))
                          (colWidthsOf (selectColumns (rows ! 0)) (take 19 (drop 1 rows))))
                       (take 19 (drop 1 rows))) @
           ''...(Results limited to 20 rows)'' @ [CHR 0x0A] @ ''```'' @ [CHR 0x0A]"
    using assms by (auto simp: formatAthenaResults_def Let_def)
  show "length (take 19 (drop 1 rows)) = 19"
    using assms(1) by simp
  show "\<forall>(h, w) \<in> set (zip (map snd (selectColumns (rows ! 0)))
                            (colWidthsOf (selectColumns (rows ! 0)) (take 19 (drop 1 rows)))).
            RuneCountInString (padRight (w + 2) h) = w + 2 \<and>
            (\<exists>n\<ge>2. padRight (w + 2) h = h @ replicate n CHR '' '')"
    using colWidthsOf_header padRight_fixed by blast
  show "\<forall>r \<in> set (take 19 (drop 1 rows)).
          \<forall>(i, w) \<in> set (zip (map fst (selectColumns (rows ! 0)))
                            (colWidthsOf (selectColumns (rows ! 0)) (take 19 (drop 1 rows)))).
          \<forall>v. i < length r \<and> r ! i = Some v \<longrightarrow>
            cell r i = v \<and>
            RuneCountInString (padRight (w + 2) v) = w + 2 \<and>
            (\<exists>n\<ge>2. padRight (w + 2) v = v @ replicate n CHR '' '')"
  proof (intro ballI, clarify, intro conjI)
    fix r i w v
    assume r: "r \<in> set (take 19 (drop 1 rows))"
      and iw: "(i, w) \<in> set (zip (map fst (selectColumns (rows ! 0)))
                            (colWidthsOf (selectColumns (rows ! 0)) (take 19 (drop 1 rows))))"
      and i: "i < length r" and v: "r ! i = Some v"
    show "cell r i = v" using i v by (simp add: cell_def)
    have "length v \<le> w" using colWidthsOf_cell [OF iw r i v] .
    then show "RuneCountInString (padRight (w + 2) v) = w + 2"
      and "\<exists>n\<ge>2. padRight (w + 2) v = v @ replicate n CHR '' ''"
      using padRight_fixed by blast+
  qed
qed


theorem formatAthenaResults_25_rows_witness:
  "length rows25 = 26 \<and> selectColumns (rows25 ! 0) \<noteq> [] \<and>
   length (take 19 (drop 1 rows25)) = 19 \<and>
   [Some ''r01''] \<in> set (take 19 (drop 1 rows25)) \<and>
   (0, 3) \<in> set (zip (map fst (selectColumns (rows25 ! 0)))
                     (colWidthsOf (selectColumns (rows25 ! 0)) (take 19 (drop 1 rows25)))) \<and>
   RuneCountInString (padRight (3 + 2) ''r01'') = 3 + 2"
proof -
  have h1: "length rows25 = 26" by code_simp
  have h2: "selectColumns (rows25 ! 0) \<noteq> []" by code_simp
  have m1: "[Some ''r01''] \<in> set (take 19 (drop 1 rows25))" by code_simp
  have m2: "(0, 3) \<in> set (zip (map fst (selectColumns (rows25 ! 0)))
                     (colWidthsOf (selectColumns (rows25 ! 0)) (take 19 (drop 1 rows25))))"
    by code_simp
  note t = formatAthenaResults_25_rows [OF h1 h2]
  from t have l: "length (take 19 (drop 1 rows25)) = 19" by blast
  from t have "\<forall>r \<in> set (take 19 (drop 1 rows25)).
          \<forall>(i, w) \<in> set (zip (map fst (selectColumns (rows25 ! 0)))
                            (colWidthsOf (selectColumns (rows25 ! 0)) (take 19 (drop 1 rows25)))).
          \<forall>v. i < length r \<and> r ! i = Some v \<longrightarrow>
            cell r i = v \<and>
            RuneCountInString (padRight (w + 2) v) = w + 2 \<and>
            (\<exists>n\<ge>2. padRight (w + 2) v = v @ replicate n CHR '' '')"
    by blast
  from bspec [OF bspec [OF this m1] m2]
  have "RuneCountInString (padRight (3 + 2) ''r01'') = 3 + 2"
    by simp
  with h1 h2 l m1 m2 show ?thesis by blast
qed



section \<open>Properties of the query rewriter\<close>

subsection \<open>Occurrences of a table name\<close>

lemma HasPrefix_iff: "HasPrefix s p \<longleftrightarrow> (\<exists>r. s = p @ r)"
  by (induction s p rule: HasPrefix.induct) auto

lemma Contains_iff: "Contains s p \<longleftrightarrow> (\<exists>u v. s = u @ p @ v)"
proof (induction s)
  case Nil
  then show ?case by auto
next
  case (Cons c cs)
  show ?case
  proof
    assume "Contains (c # cs) p"
    then consider "HasPrefix (c # cs) p" | "Contains cs p" by auto
    then show "\<exists>u v. c # cs = u @ p @ v"
    proof cases
      case 1
      then obtain r where "c # cs = p @ r" by (auto simp: HasPrefix_iff)
      then have "c # cs = [] @ p @ r" by simp
      then show ?thesis by blast
    next
      case 2
      then obtain u v where "cs = u @ p @ v" using Cons.IH by auto
      then have "c # cs = (c # u) @ p @ v" by simp
      then show ?thesis by blast
    qed
  next
    assume "\<exists>u v. c # cs = u @ p @ v"
    then obtain u v where e: "c # cs = u @ p @ v" by auto
    show "Contains (c # cs) p"
    proof (cases u)
      case Nil
      then have "HasPrefix (c # cs) p" using e by (auto simp: HasPrefix_iff)
      then show ?thesis by simp
    next
      case (Cons a u')
      then have "cs = u' @ p @ v" using e by simp
      then have "Contains cs p" using Cons.IH by auto
      then show ?thesis by simp
    qed
  qed
qed

lemma Contains_sublist: "Contains s p \<longleftrightarrow> sublist p s"
  by (auto simp: Contains_iff sublist_def)

lemma Contains_context: "Contains s p \<Longrightarrow> Contains (a @ s @ b) p"
  by (metis Contains_sublist sublist_appendI sublist_order.order.trans sublist_def)

lemma Contains_length: "Contains s p \<Longrightarrow> length p \<le> length s"
  by (auto simp: Contains_iff)


lemma Contains_split:
  assumes "x \<notin> set p"
  shows "Contains (u @ x # v) p \<longleftrightarrow> Contains u p \<or> Contains v p"
proof
  assume "Contains (u @ x # v) p"
  then have "sublist p (u @ x # v)" by (simp add: Contains_sublist)
  then have "sublist p u \<or> sublist p (x # v) \<or>
             (\<exists>xs1 xs2. p = xs1 @ xs2 \<and> suffix xs1 u \<and> prefix xs2 (x # v))"
    by (simp add: sublist_append)
  moreover have "sublist p (x # v) \<Longrightarrow> sublist p v"
    using assms by (auto simp: sublist_Cons_right prefix_Cons)
  moreover have "\<And>xs1 xs2. p = xs1 @ xs2 \<Longrightarrow> suffix xs1 u \<Longrightarrow> prefix xs2 (x # v) \<Longrightarrow> sublist p u"
    using assms by (auto simp: prefix_Cons intro: suffix_imp_sublist)
  ultimately show "Contains u p \<or> Contains v p"
    by (auto simp: Contains_sublist)
next
  assume "Contains u p \<or> Contains v p"
  then show "Contains (u @ x # v) p"
    using Contains_context [of u p "[]" "x # v"] Contains_context [of v p "u @ [x]" "[]"]
    by auto
qed

lemma Contains_skip:
  assumes "set w \<inter> set p = {}" and "p \<noteq> []"
  shows "Contains (w @ v) p \<longleftrightarrow> Contains v p"
  using assms
proof (induction w)
  case Nil
  then show ?case by simp
next
  case (Cons a w)
  have "Contains ([] @ a # (w @ v)) p \<longleftrightarrow> Contains [] p \<or> Contains (w @ v) p"
    using Cons.prems by (intro Contains_split) simp
  then show ?case using Cons by simp
qed

lemma Contains_foreign:
  assumes "set w \<inter> set p = {}" and "p \<noteq> []" and "w \<noteq> []"
  shows "Contains (u @ w @ v) p \<longleftrightarrow> Contains u p \<or> Contains v p"
proof -
  obtain a w' where w: "w = a # w'" using assms(3) by (cases w) auto
  have "Contains (u @ a # (w' @ v)) p \<longleftrightarrow> Contains u p \<or> Contains (w' @ v) p"
    using assms(1) w by (intro Contains_split) simp
  moreover have "Contains (w' @ v) p \<longleftrightarrow> Contains v p"
    using assms(1,2) w by (intro Contains_skip) auto
  ultimately show ?thesis using w by simp
qed

lemma lit_shape: "lit p s = Some r \<Longrightarrow> s = p @ r"
  by (induction p s rule: lit.induct) (auto split: if_splits)

lemma spaces1_shape: "spaces1 s = Some r \<Longrightarrow> \<exists>w. s = w @ r \<and> blank w"
proof -
  assume "spaces1 s = Some r"
  then obtain c cs where s: "s = c # cs" and c: "reSpace c" and r: "r = dropWhile reSpace cs"
    by (auto simp: spaces1_def split: list.splits if_splits)
  have "s = (c # takeWhile reSpace cs) @ r"
    using s r by simp
  moreover have "blank (c # takeWhile reSpace cs)"
    using c by (auto simp: blank_def list_all_iff dest: set_takeWhileD)
  ultimately show ?thesis by blast
qed

lemma quoted_shape: "quoted s = Some (d, r) \<Longrightarrow> s = CHR 0x27 # d @ CHR 0x27 # r \<and> literal d"
proof -
  assume a: "quoted s = Some (d, r)"
  then obtain cs where s: "s = CHR 0x27 # cs"
    and d: "d = takeWhile (\<lambda>x. x \<noteq> CHR 0x27) cs" and dn: "d \<noteq> []"
    and rn: "dropWhile (\<lambda>x. x \<noteq> CHR 0x27) cs \<noteq> []"
    and r: "r = tl (dropWhile (\<lambda>x. x \<noteq> CHR 0x27) cs)"
    by (auto simp: quoted_def Let_def split: list.splits if_splits)
  from rn have "hd (dropWhile (\<lambda>x. x \<noteq> CHR 0x27) cs) = CHR 0x27"
    using hd_dropWhile [of "\<lambda>x. x \<noteq> CHR 0x27" cs] by auto
  with rn r have "dropWhile (\<lambda>x. x \<noteq> CHR 0x27) cs = CHR 0x27 # r"
    by (cases "dropWhile (\<lambda>x. x \<noteq> CHR 0x27) cs") auto
  then have "cs = d @ CHR 0x27 # r"
    using d takeWhile_dropWhile_id [of "\<lambda>x. x \<noteq> CHR 0x27" cs] by simp
  moreover have "literal d"
    using d dn by (auto simp: literal_def dest: set_takeWhileD)
  ultimately show ?thesis using s by simp
qed






lemma tableWord_nonempty: "tableWord p \<Longrightarrow> p \<noteq> []"
  by (auto simp: tableWord_def)

lemma tableWord_foreign:
  assumes "tableWord p" and "\<not> wordChar x"
  shows "x \<notin> set p"
  using assms by (auto simp: tableWord_def list_all_iff)

lemma not_wordChar [simp]:
  "\<not> wordChar CHR 0x27" "\<not> wordChar CHR '' ''"
  "\<not> wordChar CHR ''B''" "\<not> wordChar CHR ''E''" "\<not> wordChar CHR ''T''" "\<not> wordChar CHR ''W''"
  "\<not> wordChar CHR ''N''" "\<not> wordChar CHR ''A''" "\<not> wordChar CHR ''D''" "\<not> wordChar CHR ''I''"
  "\<not> wordChar CHR ''M''" "\<not> wordChar CHR ''S''" "\<not> wordChar CHR ''P''"
  by (simp_all add: wordChar_def)

lemma reSpace_not_wordChar: "reSpace c \<Longrightarrow> \<not> wordChar c"
  by (auto simp: reSpace_def wordChar_def)

lemma blank_foreign: "tableWord p \<Longrightarrow> blank w \<Longrightarrow> set w \<inter> set p = {}"
  by (auto simp: blank_def list_all_iff dest!: reSpace_not_wordChar dest: tableWord_foreign)

lemma tableWord_time_dt:
  assumes "tableWord p"
  shows "\<not> Contains ''time_dt'' p"
proof
  assume "Contains ''time_dt'' p"
  then have "length p \<le> length ''time_dt''" by (rule Contains_length)
  with assms show False by (simp add: tableWord_def)
qed

lemma regionOld_Contains:
  assumes p: "tableWord p"
    and b: "blank w1" "blank w2" "blank w3" "blank w4"
  shows "Contains (pre @ regionOld w1 w2 d1 w3 w4 d2 @ rest) p \<longleftrightarrow>
           Contains (pre @ ''time_dt'') p \<or> Contains d1 p \<or> Contains d2 p \<or> Contains rest p"
proof -
  let ?q = "CHR 0x27"
  have q: "?q \<notin> set p" using p by (intro tableWord_foreign) simp_all
  have ne: "p \<noteq> []" using p by (rule tableWord_nonempty)
  have f1: "set (w1 @ ''BETWEEN'' @ w2 @ [?q]) \<inter> set p = {}"
    using blank_foreign [OF p b(1)] blank_foreign [OF p b(2)] q tableWord_foreign [OF p]
    by auto
  have f2: "set (w3 @ ''AND'' @ w4 @ [?q]) \<inter> set p = {}"
    using blank_foreign [OF p b(3)] blank_foreign [OF p b(4)] q tableWord_foreign [OF p]
    by auto
  have "pre @ regionOld w1 w2 d1 w3 w4 d2 @ rest =
          (pre @ ''time_dt'') @ (w1 @ ''BETWEEN'' @ w2 @ [?q]) @
          (d1 @ ?q # (w3 @ ''AND'' @ w4 @ [?q]) @ (d2 @ ?q # rest))"
    by (simp add: regionOld_def)
  then have "Contains (pre @ regionOld w1 w2 d1 w3 w4 d2 @ rest) p \<longleftrightarrow>
          Contains (pre @ ''time_dt'') p \<or>
          Contains (d1 @ ?q # (w3 @ ''AND'' @ w4 @ [?q]) @ (d2 @ ?q # rest)) p"
    using Contains_foreign [OF f1 ne, of "pre @ ''time_dt''"] by simp
  also have "Contains (d1 @ ?q # (w3 @ ''AND'' @ w4 @ [?q]) @ (d2 @ ?q # rest)) p \<longleftrightarrow>
          Contains d1 p \<or> Contains ((w3 @ ''AND'' @ w4 @ [?q]) @ (d2 @ ?q # rest)) p"
    by (rule Contains_split [OF q])
  also have "Contains ((w3 @ ''AND'' @ w4 @ [?q]) @ (d2 @ ?q # rest)) p \<longleftrightarrow>
          Contains (d2 @ ?q # rest) p"
    by (rule Contains_skip [OF f2 ne])
  also have "Contains (d2 @ ?q # rest) p \<longleftrightarrow> Contains d2 p \<or> Contains rest p"
    by (rule Contains_split [OF q])
  finally show ?thesis by blast
qed









lemma length_pad2 [simp]: "length (pad2 n) = 2"
  by (simp add: pad2_def)








lemma tableWords:
  "tableWord ''amazon_security_lake_glue_db''" "tableWord tableAp" "tableWord tableUs"
  by (simp_all add: tableWord_def tableAp_def tableUs_def wordChar_def)


lemma qualified_fixed: "isQualified s \<Longrightarrow> qualifyTables s = s"
  by (auto simp: isQualified_def qualifyTables_def Let_def)


subsection \<open>White space at the ends\<close>

lemma plain_chars [simp]:
  "plain CHR ''t''" "plain CHR ''T''" "plain CHR ''a''" "plain CHR 0x27" "plain CHR ''0''"
  by (simp_all add: plain_def spaceRunes_def)

lemma spaceWidth_0:
  assumes "[] \<notin> set rs"
  shows "spaceWidth rs s = 0 \<longleftrightarrow> (\<forall>r\<in>set rs. \<not> HasPrefix s r)"
  using assms unfolding spaceWidth_def by (induction rs) auto

lemma spaceRunes_nonempty: "[] \<notin> set spaceRunes" "[] \<notin> set (map rev spaceRunes)"
  by (simp_all add: spaceRunes_def)

lemma HasPrefix_past:
  assumes "x \<notin> set r"
  shows "HasPrefix (pre @ x # post) r \<longleftrightarrow> HasPrefix pre r"
  using assms
proof (induction pre arbitrary: r)
  case Nil
  then show ?case by (cases r) auto
next
  case (Cons a pre)
  then show ?case by (cases r) auto
qed





lemma trimRunes_fixed: "spaceWidth rs s = 0 \<Longrightarrow> trimRunes rs s = s"
  by (subst trimRunes.simps) simp

lemma TrimSpace_fixed: "noLead s \<Longrightarrow> noTrail s \<Longrightarrow> TrimSpace s = s"
  by (simp add: TrimSpace_def noLead_def noTrail_def trimRunes_fixed)

















lemma plain_noLead: "plain x \<Longrightarrow> noLead (x # s)"
proof -
  assume x: "plain x"
  have "\<not> HasPrefix (x # s) r" if "r \<in> set spaceRunes" for r
  proof -
    have "x \<notin> set r" using x that by (auto simp: plain_def list_all_iff)
    then have "HasPrefix ([] @ x # s) r \<longleftrightarrow> HasPrefix [] r" by (rule HasPrefix_past)
    moreover have "r \<noteq> []" using that spaceRunes_nonempty(1) by auto
    ultimately show ?thesis by (cases r) auto
  qed
  then show ?thesis by (simp add: noLead_def spaceWidth_0 [OF spaceRunes_nonempty(1)])
qed

lemma plain_noTrail: "plain x \<Longrightarrow> noTrail (s @ [x])"
proof -
  assume x: "plain x"
  have "\<not> HasPrefix (rev (s @ [x])) r" if "r \<in> set (map rev spaceRunes)" for r
  proof -
    from that obtain r0 where r0: "r0 \<in> set spaceRunes" "r = rev r0" by auto
    have "x \<notin> set r" using x r0 by (auto simp: plain_def list_all_iff)
    then have "HasPrefix ([] @ x # rev s) r \<longleftrightarrow> HasPrefix [] r" by (rule HasPrefix_past)
    moreover have "r \<noteq> []" using that spaceRunes_nonempty(2) by auto
    ultimately show ?thesis by (cases r) auto
  qed
  then show ?thesis by (simp only: noTrail_def spaceWidth_0 [OF spaceRunes_nonempty(2)]) blast
qed


subsection \<open>The BETWEEN clause\<close>

lemma quoted_literal:
  assumes "literal d"
  shows "quoted (CHR 0x27 # d @ CHR 0x27 # r) = Some (d, r)"
proof -
  have n: "\<And>x. x \<in> set d \<Longrightarrow> x \<noteq> CHR 0x27"
    using assms by (auto simp: literal_def)
  have t: "takeWhile (\<lambda>x. x \<noteq> CHR 0x27) (d @ CHR 0x27 # r) = d"
    using n by (simp add: takeWhile_append2)
  have d: "dropWhile (\<lambda>x. x \<noteq> CHR 0x27) (d @ CHR 0x27 # r) = CHR 0x27 # r"
    using n by (simp add: dropWhile_append2)
  show ?thesis
    using assms by (simp add: quoted_def t d literal_def)
qed

lemma betweenRegexAt_clause:
  assumes "literal d1" and "literal d2"
  shows "betweenRegexAt (clause d1 d2 @ rest) = Some (d1, d2, rest)"
  using quoted_literal [OF assms(1)] quoted_literal [OF assms(2)]
  by (simp add: betweenRegexAt_def simpleRegexAt_def clause_def spaces1_def reSpace_def)

lemma ReplaceAllBetween_clause:
  assumes "literal d1" and "literal d2"
  shows "ReplaceAllBetween (clause d1 d2 @ rest) =
           typedClause (jstToUtc d1) (jstToUtc d2) @ ReplaceAllBetween rest"
proof -
  obtain c cs where c: "clause d1 d2 @ rest = c # cs"
    by (simp add: clause_def)
  have "ReplaceAllBetween (c # cs) = rewriteBetween d1 d2 @ ReplaceAllBetween rest"
    using betweenRegexAt_clause [OF assms, of rest] c by simp
  then show ?thesis
    by (simp add: c rewriteBetween_def typedClause_def)
qed

lemma simpleRegexAt_quotes:
  assumes "simpleRegexAt s = Some m"
  shows "4 \<le> count_list s (CHR 0x27)"
proof -
  obtain d1 d2 rest where m: "m = (d1, d2, rest)" by (cases m) auto
  from assms obtain s1 s2 s3 s4 s5 s6 where
    1: "lit ''BETWEEN'' s = Some s1" and 2: "spaces1 s1 = Some s2"
    and 3: "quoted s2 = Some (d1, s3)" and 4: "spaces1 s3 = Some s4"
    and 5: "lit ''AND'' s4 = Some s5" and 6: "spaces1 s5 = Some s6"
    and 7: "quoted s6 = Some (d2, rest)"
    unfolding m by (auto simp: simpleRegexAt_def bind_eq_Some_conv)
  from spaces1_shape [OF 2] obtain w2 where w2: "s1 = w2 @ s2" by auto
  from spaces1_shape [OF 4] obtain w3 where w3: "s3 = w3 @ s4" by auto
  from spaces1_shape [OF 6] obtain w4 where w4: "s5 = w4 @ s6" by auto
  have "s = ''BETWEEN'' @ w2 @ CHR 0x27 # d1 @ CHR 0x27 # w3 @ ''AND'' @ w4 @
              CHR 0x27 # d2 @ CHR 0x27 # rest"
    using lit_shape [OF 1] lit_shape [OF 5] quoted_shape [OF 3] quoted_shape [OF 7] w2 w3 w4
    by simp
  then have "count_list s (CHR 0x27) =
      count_list (''BETWEEN'' @ w2) (CHR 0x27) + 1 + count_list d1 (CHR 0x27) + 1 +
      count_list (w3 @ ''AND'' @ w4) (CHR 0x27) + 1 + count_list d2 (CHR 0x27) + 1 +
      count_list rest (CHR 0x27)"
    by simp
  then show ?thesis by simp
qed

lemma FindAllSimple_few_quotes:
  "count_list s (CHR 0x27) < 4 \<Longrightarrow> FindAllSimple s = []"
proof (induction s)
  case Nil
  then show ?case by simp
next
  case (Cons c cs)
  have "simpleRegexAt (c # cs) = None"
    using simpleRegexAt_quotes [of "c # cs"] Cons.prems by (cases "simpleRegexAt (c # cs)") auto
  moreover have "count_list cs (CHR 0x27) < 4"
    using Cons.prems by (simp split: if_splits)
  ultimately show ?case using Cons.IH by simp
qed

lemma literal_count: "literal d \<Longrightarrow> count_list d (CHR 0x27) = 0"
  by (simp add: literal_def count_list_0_iff)

lemma simpleRegexAt_not_between:
  "c \<noteq> CHR ''B'' \<Longrightarrow> simpleRegexAt (c # cs) = None"
  by (simp add: simpleRegexAt_def)

lemma FindAllSimple_typedClause:
  assumes "literal c1" and "literal c2"
  shows "FindAllSimple (typedClause c1 c2) = []"
proof -
  let ?q = "CHR 0x27"
  let ?tail = "c1 @ ?q # '' AND TIMESTAMP '' @ ?q # c2 @ [?q]"
  have "count_list ?tail ?q < 4"
    using literal_count [OF assms(1)] literal_count [OF assms(2)] by simp
  then have t: "FindAllSimple ?tail = []" by (rule FindAllSimple_few_quotes)
  have b: "simpleRegexAt (''BETWEEN TIMESTAMP '' @ ?q # ?tail) = None"
    by (simp add: simpleRegexAt_def spaces1_def reSpace_def quoted_def)
  have "typedClause c1 c2 = ''time_dt BETWEEN TIMESTAMP '' @ ?q # ?tail"
    by (simp add: typedClause_def)
  then show ?thesis
    using t b by (simp add: simpleRegexAt_not_between)
qed

lemma digitChar_not_quote:
  assumes "0 \<le> n" and "n < 10"
  shows "digitChar n \<noteq> CHR 0x27"
proof
  assume "digitChar n = CHR 0x27"
  then have "(of_char (digitChar n) :: nat) = of_char (CHR 0x27)" by simp
  then have "(48 + nat n) mod 256 = 39" by (simp add: digitChar_def)
  moreover have "48 + nat n < 256" using assms by simp
  ultimately show False by simp
qed

lemma pad2_no_quote: "CHR 0x27 \<notin> set (pad2 n)"
proof -
  have "digitChar (n div 10 mod 10) \<noteq> CHR 0x27" "digitChar (n mod 10) \<noteq> CHR 0x27"
    by (rule digitChar_not_quote; simp)+
  then show ?thesis by (auto simp: pad2_def)
qed

lemma formatTime_literal: "literal (formatTime t)"
  by (simp add: literal_def formatTime_def pad4_def pad2_no_quote)

lemma jstToUtc_literal: "literal d \<Longrightarrow> literal (jstToUtc d)"
  by (auto simp: jstToUtc_def formatTime_literal split: option.splits)


lemma clause_regionOld: "clause d1 d2 = regionOld '' '' '' '' d1 '' '' '' '' d2"
  by (simp add: clause_def regionOld_def)

lemma clause_Contains:
  assumes "tableWord p"
  shows "Contains (clause d1 d2) p \<longleftrightarrow> Contains d1 p \<or> Contains d2 p"
proof -
  have b: "blank '' ''" by (simp add: blank_def reSpace_def)
  have "Contains ([] @ regionOld '' '' '' '' d1 '' '' '' '' d2 @ []) p \<longleftrightarrow>
          Contains ([] @ ''time_dt'') p \<or> Contains d1 p \<or> Contains d2 p \<or> Contains [] p"
    by (rule regionOld_Contains [OF assms b b b b])
  moreover have "\<not> Contains [] p" using tableWord_nonempty [OF assms] by simp
  moreover have "\<not> Contains ''time_dt'' p" using tableWord_time_dt [OF assms] .
  ultimately show ?thesis by (simp add: clause_regionOld)
qed

lemma clause_rewritten:
  assumes "literal d1" and "literal d2"
    and "\<not> Contains d1 tableAp" and "\<not> Contains d1 tableUs"
    and "\<not> Contains d2 tableAp" and "\<not> Contains d2 tableUs"
  shows "preprocessSqlQuery (clause d1 d2) = typedClause (jstToUtc d1) (jstToUtc d2)"
proof -
  have e: "clause d1 d2 = CHR ''t'' # (''ime_dt BETWEEN '' @ [CHR 0x27] @ d1 @ [CHR 0x27] @ '' AND '' @ [CHR 0x27] @ d2 @ [CHR 0x27])"
    "clause d1 d2 = (''time_dt BETWEEN '' @ [CHR 0x27] @ d1 @ [CHR 0x27] @ '' AND '' @ [CHR 0x27] @ d2) @ [CHR 0x27]"
    by (simp_all add: clause_def)
  have "noLead (clause d1 d2)" by (subst e(1)) (rule plain_noLead, simp)
  moreover have "noTrail (clause d1 d2)" by (subst e(2)) (rule plain_noTrail, simp)
  ultimately have t: "TrimSpace (clause d1 d2) = clause d1 d2" by (rule TrimSpace_fixed)
  have "isQualified (clause d1 d2)"
    using assms(3-6) by (simp add: isQualified_def clause_Contains tableWords)
  then have q: "qualifyTables (clause d1 d2) = clause d1 d2" by (rule qualified_fixed)
  have r: "ReplaceAllBetween (clause d1 d2) = typedClause (jstToUtc d1) (jstToUtc d2)"
    using ReplaceAllBetween_clause [OF assms(1,2), of "[]"] by simp
  have f: "FindAllSimple (typedClause (jstToUtc d1) (jstToUtc d2)) = []"
    using assms(1,2) by (intro FindAllSimple_typedClause jstToUtc_literal)
  show ?thesis by (simp add: preprocessSqlQuery_def t q r f)
qed

text \<open>
  C6.  The clause \<open>time_dt BETWEEN '2024-01-01 10:00:00' AND '2024-01-01 12:00:00'\<close> is
  rewritten with both literals nine hours earlier and typed.  Each literal is converted on
  its own: for any two quoted literals that name no table, the clause
  \<open>time_dt BETWEEN 'd1' AND 'd2'\<close> is rewritten to the typed clause of \<open>jstToUtc d1\<close> and
  \<open>jstToUtc d2\<close> (and inside a longer text the clause is rewritten in the same way), where
  \<open>jstToUtc\<close> leaves a literal that does not parse as it is and moves one that parses, and
  names no time zone, nine hours back; so \<open>'yesterday'\<close> or \<open>'now'\<close> stay beside a converted
  bound.
\<close>

theorem between_literals_to_utc:
  "preprocessSqlQuery (''time_dt BETWEEN '2024-01-01 10:00:00' AND '2024-01-01 12:00:00'' @ [CHR 0x27]) =
     ''time_dt BETWEEN TIMESTAMP '2024-01-01 01:00:00' AND TIMESTAMP '2024-01-01 03:00:00'' @ [CHR 0x27] \<and>
   preprocessSqlQuery (''time_dt BETWEEN 'yesterday' AND '2024-01-01 12:00:00'' @ [CHR 0x27]) =
     ''time_dt BETWEEN TIMESTAMP 'yesterday' AND TIMESTAMP '2024-01-01 03:00:00'' @ [CHR 0x27] \<and>
   preprocessSqlQuery (''time_dt BETWEEN '2024-01-01 10:00:00' AND 'now'' @ [CHR 0x27]) =
     ''time_dt BETWEEN TIMESTAMP '2024-01-01 01:00:00' AND TIMESTAMP 'now'' @ [CHR 0x27] \<and>
   (\<forall>d1 d2. literal d1 \<and> literal d2 \<and>
      \<not> Contains d1 tableAp \<and> \<not> Contains d1 tableUs \<and>
      \<not> Contains d2 tableAp \<and> \<not> Contains d2 tableUs \<longrightarrow>
      preprocessSqlQuery (clause d1 d2) = typedClause (jstToUtc d1) (jstToUtc d2)) \<and>
   (\<forall>d1 d2 rest. literal d1 \<and> literal d2 \<longrightarrow>
      ReplaceAllBetween (clause d1 d2 @ rest) =
        typedClause (jstToUtc d1) (jstToUtc d2) @ ReplaceAllBetween rest) \<and>
   (\<forall>d. parseTime d = None \<longrightarrow> jstToUtc d = d) \<and>
   (\<forall>d t. parseTime d = Some t \<and> \<not> Contains d ''+'' \<and> \<not> Contains d ''Z'' \<longrightarrow>
      jstToUtc d = formatTime (minus9h t))"
proof (intro conjI allI impI)
  show "preprocessSqlQuery (''time_dt BETWEEN '2024-01-01 10:00:00' AND '2024-01-01 12:00:00'' @ [CHR 0x27]) =
     ''time_dt BETWEEN TIMESTAMP '2024-01-01 01:00:00' AND TIMESTAMP '2024-01-01 03:00:00'' @ [CHR 0x27]"
    by code_simp
  show "preprocessSqlQuery (''time_dt BETWEEN 'yesterday' AND '2024-01-01 12:00:00'' @ [CHR 0x27]) =
     ''time_dt BETWEEN TIMESTAMP 'yesterday' AND TIMESTAMP '2024-01-01 03:00:00'' @ [CHR 0x27]"
    by code_simp
  show "preprocessSqlQuery (''time_dt BETWEEN '2024-01-01 10:00:00' AND 'now'' @ [CHR 0x27]) =
     ''time_dt BETWEEN TIMESTAMP '2024-01-01 01:00:00' AND TIMESTAMP 'now'' @ [CHR 0x27]"
    by code_simp
next
  fix d1 d2
  assume "literal d1 \<and> literal d2 \<and>
      \<not> Contains d1 tableAp \<and> \<not> Contains d1 tableUs \<and>
      \<not> Contains d2 tableAp \<and> \<not> Contains d2 tableUs"
  then show "preprocessSqlQuery (clause d1 d2) = typedClause (jstToUtc d1) (jstToUtc d2)"
    by (intro clause_rewritten) simp_all
next
  fix d1 d2 rest
  assume "literal d1 \<and> literal d2"
  then show "ReplaceAllBetween (clause d1 d2 @ rest) =
        typedClause (jstToUtc d1) (jstToUtc d2) @ ReplaceAllBetween rest"
    by (simp add: ReplaceAllBetween_clause)
next
  fix d
  assume "parseTime d = None"
  then show "jstToUtc d = d" by (simp add: jstToUtc_def)
next
  fix d t
  assume "parseTime d = Some t \<and> \<not> Contains d ''+'' \<and> \<not> Contains d ''Z''"
  then show "jstToUtc d = formatTime (minus9h t)" by (simp add: jstToUtc_def)
qed

theorem between_literals_to_utc_witness:
  "literal ''2024-01-01 10:00:00'' \<and> literal ''soon'' \<and> parseTime ''soon'' = None \<and>
   \<not> Contains ''2024-01-01 10:00:00'' tableAp \<and> \<not> Contains ''2024-01-01 10:00:00'' tableUs \<and>
   \<not> Contains ''soon'' tableAp \<and> \<not> Contains ''soon'' tableUs \<and>
   parseTime ''2024-01-01 10:00:00'' =
     Some \<lparr>year = 2024, month = 1, day = 1, hour = 10, minute = 0, second = 0\<rparr> \<and>
   preprocessSqlQuery (clause ''2024-01-01 10:00:00'' ''soon'') =
     typedClause ''2024-01-01 01:00:00'' ''soon'' \<and>
   ReplaceAllBetween (clause ''2024-01-01 10:00:00'' ''soon'' @ '' LIMIT 5'') =
     typedClause ''2024-01-01 01:00:00'' ''soon'' @ '' LIMIT 5''"
proof -
  have l1: "literal ''2024-01-01 10:00:00''" by code_simp
  have l2: "literal ''soon''" by code_simp
  have n: "\<not> Contains ''2024-01-01 10:00:00'' tableAp \<and> \<not> Contains ''2024-01-01 10:00:00'' tableUs \<and>
           \<not> Contains ''soon'' tableAp \<and> \<not> Contains ''soon'' tableUs" by code_simp
  have p2: "parseTime ''soon'' = None" by code_simp
  have p1: "parseTime ''2024-01-01 10:00:00'' =
     Some \<lparr>year = 2024, month = 1, day = 1, hour = 10, minute = 0, second = 0\<rparr>" by code_simp
  have nz: "\<not> Contains ''2024-01-01 10:00:00'' ''+'' \<and> \<not> Contains ''2024-01-01 10:00:00'' ''Z''"
    by code_simp
  have f: "formatTime (minus9h \<lparr>year = 2024, month = 1, day = 1, hour = 10, minute = 0, second = 0\<rparr>) =
           ''2024-01-01 01:00:00''" by code_simp
  have r: "ReplaceAllBetween '' LIMIT 5'' = '' LIMIT 5''" by code_simp
  note t = between_literals_to_utc
  from t l1 l2 n have a: "preprocessSqlQuery (clause ''2024-01-01 10:00:00'' ''soon'') =
        typedClause (jstToUtc ''2024-01-01 10:00:00'') (jstToUtc ''soon'')"
    by blast
  from t l1 l2 have b: "ReplaceAllBetween (clause ''2024-01-01 10:00:00'' ''soon'' @ '' LIMIT 5'') =
        typedClause (jstToUtc ''2024-01-01 10:00:00'') (jstToUtc ''soon'') @ ReplaceAllBetween '' LIMIT 5''"
    by blast
  from t p2 have c: "jstToUtc ''soon'' = ''soon''" by blast
  from t p1 nz have d: "jstToUtc ''2024-01-01 10:00:00'' =
      formatTime (minus9h \<lparr>year = 2024, month = 1, day = 1, hour = 10, minute = 0, second = 0\<rparr>)"
    by blast
  have a': "preprocessSqlQuery (clause ''2024-01-01 10:00:00'' ''soon'') =
     typedClause ''2024-01-01 01:00:00'' ''soon''"
    using a c d f by simp
  have b': "ReplaceAllBetween (clause ''2024-01-01 10:00:00'' ''soon'' @ '' LIMIT 5'') =
     typedClause ''2024-01-01 01:00:00'' ''soon'' @ '' LIMIT 5''"
    using b c d f r by simp
  show ?thesis using l1 l2 n p1 p2 a' b' by blast
qed

text \<open>
  C7.  A year as a bound of a BETWEEN clause is expanded when the clause is on another
  column, but not when it is on \<open>time_dt\<close>: the rewriting of the \<open>time_dt\<close> clauses comes first
  and puts \<open>TIMESTAMP\<close> before each literal, after which the second expression finds no
  clause to expand.
\<close>

theorem year_expansion_misses_time_dt:
  "preprocessSqlQuery (''SELECT * FROM logs WHERE time_dt BETWEEN '2020' AND '2021'' @ [CHR 0x27]) =
     ''SELECT * FROM logs WHERE time_dt BETWEEN TIMESTAMP '2020' AND TIMESTAMP '2021'' @ [CHR 0x27] \<and>
   preprocessSqlQuery (''SELECT * FROM logs WHERE day BETWEEN '2020' AND '2021'' @ [CHR 0x27]) =
     ''SELECT * FROM logs WHERE day BETWEEN TIMESTAMP '2020-01-01 00:00:00' AND TIMESTAMP '2021-12-31 23:59:59'' @ [CHR 0x27]"
  by code_simp

subsection \<open>A second pass\<close>


lemma marks_Nil [simp]: "marks [] = 0"
  by (simp add: marks_def)




























section \<open>Properties of the handler\<close>

text \<open>
  C8.  When the query fails, the message that the handler posts has the region, the error,
  the link to the console with the execution id, and under \<open>Executed SQL\<close> the text that the
  model generated, not the rewritten text that was submitted: here the query submitted
  names the table with its database, the message does not.
\<close>

theorem error_message_shows_generated_sql:
  "map_option (\<lambda>(r, s, e). (r, e))
     (handler cfg0 (world0 ''SELECT * FROM amazon_security_lake_table_ap_northeast_1_waf_2_0''
                      [Status ''FAILED'' None] 0) delivery noCaches) =
   Some (Response 200 ''error reported to slack'',
         [StartQueryExecution ''ap-northeast-1''
            ''SELECT * FROM amazon_security_lake_glue_db_ap_northeast_1.amazon_security_lake_table_ap_northeast_1_waf_2_0''
            ''waf'' ''s3://out/'' ''primary'',
          GetQueryExecution ''q-1'',
          SlackPost ''C1''
            (''Query failed (region: ap-northeast-1): Athena query failed: Unknown error'' @ [CHR 0x0A, CHR 0x0A] @
             ''Executed SQL:'' @ [CHR 0x0A] @ ''```'' @ [CHR 0x0A] @
             ''SELECT * FROM amazon_security_lake_table_ap_northeast_1_waf_2_0'' @ [CHR 0x0A] @ ''```'' @
             [CHR 0x0A, CHR 0x0A] @
             ''Athena Console: https://ap-northeast-1.console.aws.amazon.com/athena/home?region=ap-northeast-1#/query-editor/history/q-1'')])"
  by code_simp


end
